theory Spec2Isabelle
  imports Main "HOL-Library.Sublist"
begin

section \<open>The BT-W5 mode switch: a model of \<^verbatim>\<open>btw5-switch.py\<close>\<close>

text \<open>
  The script is a straight line of library calls. Everything it reads from the outside
  (effective user id, command line, what the USB library answers) is a field of an
  environment; everything it does to the outside (USB library calls, lines printed) is
  an event of a trace, in program order; every way it ends is a value of \<open>exit\<close>.
\<close>

subsection \<open>Exceptions and exits\<close>

text \<open>
  Three kinds of Python exception matter to the handlers of the script:
  \<open>usb.core.USBError\<close> (caught by \<open>except usb.core.USBError\<close> and by
  \<open>except Exception\<close>), \<open>IndexError\<close> (raised by \<open>cfg[(0, 0)]\<close> and \<open>intf[0]\<close>
  when there is no such interface or endpoint) and every other subclass of
  \<open>Exception\<close>; the last two are caught by \<open>except Exception\<close> only.
\<close>

datatype exn = USBError string | IndexError | OtherException string

fun is_USBError :: "exn \<Rightarrow> bool" where
  "is_USBError (USBError s) = True"
| "is_USBError IndexError = False"
| "is_USBError (OtherException s) = False"

text \<open>
  \<open>Completed\<close>: the script ran to its last line. \<open>SysExit msg e\<close>: \<open>sys.exit\<close> with
  a string, the literal \<open>msg\<close> followed by the formatted exception \<open>e\<close> if the
  f-string has one; Python prints the string and exits with status 1.
  \<open>ArgparseExit c\<close>: \<open>parse_args\<close> left the program with status \<open>c\<close>.
  \<open>Uncaught e\<close>: an exception no handler catches; traceback, status 1.
\<close>

datatype exit = Completed | SysExit string "exn option" | ArgparseExit nat | Uncaught exn

fun exit_code :: "exit \<Rightarrow> nat" where
  "exit_code Completed = 0"
| "exit_code (SysExit msg e) = 1"
| "exit_code (ArgparseExit c) = c"
| "exit_code (Uncaught e) = 1"

subsection \<open>The argument parser\<close>

text \<open>
  \<open>parser = argparse.ArgumentParser(description=...)\<close> with
  \<open>parser.add_argument('mode', choices=['hq', 'll'], help=...)\<close>: one positional
  argument restricted to two choices, and the help option \<open>-h\<close>/\<open>--help\<close> that
  \<open>ArgumentParser\<close> adds by default. \<open>parse_args\<close> below is \<open>ArgumentParser.parse_args\<close>
  of CPython 3.11 specialised to this parser, on \<open>sys.argv[1:]\<close> as a list of byte
  strings (UTF-8). It either returns the namespace (here its one attribute, \<open>mode\<close>) or leaves
  the program: status 0 after printing the help, status 2 after a usage error.
\<close>

datatype parse_result = Namespace string | SystemExit nat

definition choices :: "string list" where
  "choices = [''hq'', ''ll'']"

definition option_strings :: "string list" where
  "option_strings = [''-h'', ''--help'']"

text \<open>\<open>s.partition('=')\<close>: the part before the first \<open>=\<close>, whether there is one, the part after.\<close>

definition partition_eq :: "string \<Rightarrow> string \<times> bool \<times> string" where
  "partition_eq s =
     (takeWhile (\<lambda>c. c \<noteq> CHR ''='') s, CHR ''='' \<in> set s, drop 1 (dropWhile (\<lambda>c. c \<noteq> CHR ''='') s))"

text \<open>
  An option tuple \<open>(known, option_string, sep, explicit_arg)\<close>: \<open>known\<close> is false for
  the action \<open>None\<close> (no such option) and true for the help action, the only one;
  \<open>sep\<close> is true where the source has the separator \<open>'='\<close> (the only truthy one).
\<close>

type_synonym option_tuple = "bool \<times> string \<times> bool \<times> string option"

definition get_option_tuples :: "string \<Rightarrow> option_tuple list" where
  "get_option_tuples s =
     (if s ! 1 = CHR ''-'' then
        (case partition_eq s of (option_prefix, sep, explicit_arg) \<Rightarrow>
           concat (map (\<lambda>opt. if prefix option_prefix opt
                              then [(True, opt, sep, if sep then Some explicit_arg else None)]
                              else []) option_strings))
      else
        concat (map (\<lambda>opt. if opt = take 2 s then [(True, opt, False, Some (drop 2 s))]
                           else if prefix s opt then [(True, opt, False, None)]
                           else []) option_strings))"

text \<open>
  The strings of the command line are byte strings, the UTF-8 encoding of the Python
  strings; the parser compares characters with ASCII characters only, which a byte string
  answers as the Python string does, but for \<open>\d\<close>, which matches every decimal
  digit of Unicode. \<open>code_points\<close> decodes UTF-8 as Python does for \<open>sys.argv\<close>
  (a byte that does not decode becomes the lone surrogate \<open>0xDC00 + byte\<close>);
  \<open>decimal_ranges\<close> is the category Nd of Unicode 14.0, the database of CPython 3.11.
\<close>

definition continuation :: "nat \<Rightarrow> bool" where
  "continuation b = (0x80 \<le> b \<and> b \<le> 0xBF)"

fun code_points :: "nat list \<Rightarrow> nat list" where
  "code_points [] = []"
| "code_points (b0 # bs) =
     (if b0 < 0x80 then b0 # code_points bs
      else if 0xC2 \<le> b0 \<and> b0 \<le> 0xDF then
        (case bs of
           b1 # r \<Rightarrow>
             if continuation b1 then ((b0 - 0xC0) * 64 + (b1 - 0x80)) # code_points r
             else (0xDC00 + b0) # code_points bs
         | _ \<Rightarrow> (0xDC00 + b0) # code_points bs)
      else if 0xE0 \<le> b0 \<and> b0 \<le> 0xEF then
        (case bs of
           b1 # b2 # r \<Rightarrow>
             if continuation b1 \<and> continuation b2 \<and>
                (b0 = 0xE0 \<longrightarrow> 0xA0 \<le> b1) \<and> (b0 = 0xED \<longrightarrow> b1 \<le> 0x9F)
             then ((b0 - 0xE0) * 4096 + (b1 - 0x80) * 64 + (b2 - 0x80)) # code_points r
             else (0xDC00 + b0) # code_points bs
         | _ \<Rightarrow> (0xDC00 + b0) # code_points bs)
      else if 0xF0 \<le> b0 \<and> b0 \<le> 0xF4 then
        (case bs of
           b1 # b2 # b3 # r \<Rightarrow>
             if continuation b1 \<and> continuation b2 \<and> continuation b3 \<and>
                (b0 = 0xF0 \<longrightarrow> 0x90 \<le> b1) \<and> (b0 = 0xF4 \<longrightarrow> b1 \<le> 0x8F)
             then ((b0 - 0xF0) * 262144 + (b1 - 0x80) * 4096 + (b2 - 0x80) * 64 + (b3 - 0x80))
                    # code_points r
             else (0xDC00 + b0) # code_points bs
         | _ \<Rightarrow> (0xDC00 + b0) # code_points bs)
      else (0xDC00 + b0) # code_points bs)"

definition decimal_ranges :: "(nat \<times> nat) list" where
  "decimal_ranges =
     [(0x0030, 0x0039), (0x0660, 0x0669), (0x06F0, 0x06F9), (0x07C0, 0x07C9),
      (0x0966, 0x096F), (0x09E6, 0x09EF), (0x0A66, 0x0A6F), (0x0AE6, 0x0AEF),
      (0x0B66, 0x0B6F), (0x0BE6, 0x0BEF), (0x0C66, 0x0C6F), (0x0CE6, 0x0CEF),
      (0x0D66, 0x0D6F), (0x0DE6, 0x0DEF), (0x0E50, 0x0E59), (0x0ED0, 0x0ED9),
      (0x0F20, 0x0F29), (0x1040, 0x1049), (0x1090, 0x1099), (0x17E0, 0x17E9),
      (0x1810, 0x1819), (0x1946, 0x194F), (0x19D0, 0x19D9), (0x1A80, 0x1A89),
      (0x1A90, 0x1A99), (0x1B50, 0x1B59), (0x1BB0, 0x1BB9), (0x1C40, 0x1C49),
      (0x1C50, 0x1C59), (0xA620, 0xA629), (0xA8D0, 0xA8D9), (0xA900, 0xA909),
      (0xA9D0, 0xA9D9), (0xA9F0, 0xA9F9), (0xAA50, 0xAA59), (0xABF0, 0xABF9),
      (0xFF10, 0xFF19), (0x104A0, 0x104A9), (0x10D30, 0x10D39), (0x11066, 0x1106F),
      (0x110F0, 0x110F9), (0x11136, 0x1113F), (0x111D0, 0x111D9), (0x112F0, 0x112F9),
      (0x11450, 0x11459), (0x114D0, 0x114D9), (0x11650, 0x11659), (0x116C0, 0x116C9),
      (0x11730, 0x11739), (0x118E0, 0x118E9), (0x11950, 0x11959), (0x11C50, 0x11C59),
      (0x11D50, 0x11D59), (0x11DA0, 0x11DA9), (0x16A60, 0x16A69), (0x16AC0, 0x16AC9),
      (0x16B50, 0x16B59), (0x1D7CE, 0x1D7FF), (0x1E140, 0x1E149), (0x1E2F0, 0x1E2F9),
      (0x1E950, 0x1E959), (0x1FBF0, 0x1FBF9)]"

definition decimal :: "nat \<Rightarrow> bool" where
  "decimal c = list_ex (\<lambda>(lo, hi). lo \<le> c \<and> c \<le> hi) decimal_ranges"

text \<open>
  The pattern \<open>^-\d+$|^-\d*\.\d+$\<close> of \<open>_negative_number_matcher\<close>; \<open>$\<close> also
  matches before a newline that ends the string.
\<close>

definition negative_number :: "string \<Rightarrow> bool" where
  "negative_number s =
     (let t = (if s \<noteq> [] \<and> last s = CHR 0x0A then butlast s else s) in
      case t of
        [] \<Rightarrow> False
      | c # r \<Rightarrow> c = CHR ''-'' \<and>
          (let ds = code_points (map of_char r) in
           (ds \<noteq> [] \<and> list_all decimal ds) \<or>
           (case dropWhile decimal ds of
              [] \<Rightarrow> False
            | d # f \<Rightarrow> d = 0x2E \<and> f \<noteq> [] \<and> list_all decimal f)))"

text \<open>
  \<open>_parse_optional\<close>: \<open>Arg\<close> (\<open>'A'\<close> in the pattern) for a string meant as a
  positional argument, \<open>Opt\<close> (\<open>'O'\<close>) with its option tuple for an option string,
  \<open>Ambiguous\<close> where the source reports an ambiguous abbreviation.
\<close>

datatype token_class = Arg | Opt option_tuple | Ambiguous

definition parse_optional :: "string \<Rightarrow> token_class" where
  "parse_optional s =
     (if s = [] then Arg
      else if hd s \<noteq> CHR ''-'' then Arg
      else if s \<in> set option_strings then Opt (True, s, False, None)
      else if length s = 1 then Arg
      else case partition_eq s of (option_string, sep, explicit_arg) \<Rightarrow>
        if sep \<and> option_string \<in> set option_strings
        then Opt (True, option_string, True, Some explicit_arg)
        else (case get_option_tuples s of
                [] \<Rightarrow> if negative_number s then Arg
                       else if CHR 0x20 \<in> set s then Arg
                       else Opt (False, s, False, None)
              | [t] \<Rightarrow> Opt t
              | _ \<Rightarrow> Ambiguous))"

text \<open>
  \<open>consume_optional\<close>, for the option at hand: \<open>Extras\<close> when the string goes to the
  unrecognised arguments, \<open>TakeHelp\<close> when the help action runs (it prints the help and
  exits with status 0), \<open>ArgumentError\<close> when the source raises one. The help action takes
  no argument, so \<open>arg_count\<close> is 0 throughout; once an action tuple is appended, leaving the
  loop runs the help action first.
\<close>

datatype consumed = Extras | TakeHelp | ArgumentError

function consume_optional :: "bool \<Rightarrow> string \<Rightarrow> bool \<Rightarrow> string option \<Rightarrow> consumed" where
  "consume_optional known option_string sep explicit_arg =
     (if \<not> known then Extras
      else case explicit_arg of
        None \<Rightarrow> TakeHelp
      | Some e \<Rightarrow>
          if option_string ! 1 \<noteq> CHR ''-'' \<and> e \<noteq> [] then
            (if sep \<or> hd e = CHR ''-'' then ArgumentError
             else if [CHR ''-'', hd e] \<in> set option_strings then
               (if tl e = [] then consume_optional True [CHR ''-'', hd e] False None
                else if hd (tl e) = CHR ''='' then
                  consume_optional True [CHR ''-'', hd e] True (Some (tl (tl e)))
                else consume_optional True [CHR ''-'', hd e] False (Some (tl e)))
             else TakeHelp)
          else ArgumentError)"
  by pat_completeness auto
termination
  by (relation "measure (\<lambda>(k, os, sep, ea). case ea of None \<Rightarrow> 0 | Some e \<Rightarrow> Suc (length e))")
     (auto simp: Suc_le_eq)

text \<open>An \<open>'O'\<close> of the pattern of argument strings.\<close>

definition is_option :: "token_class \<Rightarrow> bool" where
  "is_option c = (case c of Opt t \<Rightarrow> True | _ \<Rightarrow> False)"

text \<open>
  \<open>_parse_known_args\<close> keeps two things while it goes through the strings: \<open>mode\<close>,
  \<open>None\<close> while the positional argument is still to be consumed, and \<open>extras\<close>,
  whether any string was left over. \<open>_get_values\<close> checks a consumed value against
  \<open>choices\<close>. At the end a positional never consumed is the error "the following
  arguments are required", a leftover string the error "unrecognized arguments".

  After the last option, \<open>consume_positionals\<close> matches \<open>(-*A-*)\<close> against what is
  left, \<open>as\<close> before \<open>--\<close> and \<open>post\<close> from \<open>--\<close> on; the first \<open>--\<close> is dropped from
  the matched strings; every string not matched is an extra.
\<close>

definition finish :: "string option \<Rightarrow> bool \<Rightarrow> string list \<Rightarrow> parse_result" where
  "finish mode extras rest =
     (case mode of
        None \<Rightarrow> SystemExit 2
      | Some m \<Rightarrow> if extras \<or> rest \<noteq> [] then SystemExit 2 else Namespace m)"

definition check_value :: "string \<Rightarrow> bool" where
  "check_value v = (v \<in> set choices)"

definition parse_rest :: "string option \<Rightarrow> bool \<Rightarrow> string list \<Rightarrow> string list \<Rightarrow> parse_result" where
  "parse_rest mode extras as post =
     (case mode of
        Some m \<Rightarrow> finish mode extras (as @ post)
      | None \<Rightarrow>
          (case as of
             a # as' \<Rightarrow>
               if \<not> check_value a then SystemExit 2
               else if as' = [] then finish (Some a) extras (drop 1 post)
               else finish (Some a) extras (as' @ post)
           | [] \<Rightarrow>
               (case post of
                  dd # p # ps \<Rightarrow>
                    if \<not> check_value p then SystemExit 2 else finish (Some p) extras ps
                | _ \<Rightarrow> finish None extras post)))"

text \<open>
  The main loop runs while an option string lies ahead: a positional string before it is
  consumed if the positional argument is still open and is an extra otherwise; an option
  string is consumed by \<open>consume_optional\<close>.
\<close>

fun parse_loop :: "string option \<Rightarrow> bool \<Rightarrow> (string \<times> token_class) list \<Rightarrow> string list \<Rightarrow> parse_result" where
  "parse_loop mode extras [] post = parse_rest mode extras [] post"
| "parse_loop mode extras ((s, c) # ts) post =
     (if \<not> list_ex (\<lambda>(s, c). is_option c) ((s, c) # ts)
      then parse_rest mode extras (s # map fst ts) post
      else case c of
        Opt (known, option_string, sep, explicit_arg) \<Rightarrow>
          (case consume_optional known option_string sep explicit_arg of
             Extras \<Rightarrow> parse_loop mode True ts post
           | TakeHelp \<Rightarrow> SystemExit 0
           | ArgumentError \<Rightarrow> SystemExit 2)
      | _ \<Rightarrow>
          (case mode of
             None \<Rightarrow> if \<not> check_value s then SystemExit 2 else parse_loop (Some s) extras ts post
           | Some m \<Rightarrow> parse_loop mode True ts post))"

text \<open>
  \<open>parse_args\<close>: the strings before the first \<open>--\<close> are classified by
  \<open>_parse_optional\<close> (an ambiguous one is an error at once); \<open>--\<close> and everything
  after it are arguments.
\<close>

definition parse_args :: "string list \<Rightarrow> parse_result" where
  "parse_args args =
     (let pre = takeWhile (\<lambda>s. s \<noteq> ''--'') args;
          post = dropWhile (\<lambda>s. s \<noteq> ''--'') args;
          classes = map parse_optional pre
      in if Ambiguous \<in> set classes then SystemExit 2
         else parse_loop None False (zip pre classes) post)"

subsection \<open>The USB library\<close>

text \<open>
  What \<open>usb.core\<close> answers. A library call returns \<open>Inr\<close> its value or \<open>Inl\<close> the
  exception it raises. A configuration holds its interfaces by index, each a list of
  alternate settings; \<open>cfg[(0, 0)]\<close> and \<open>intf[0]\<close> raise \<open>IndexError\<close> out of range.
\<close>

record interface =
  bInterfaceNumber :: nat
  endpoints :: "nat list"

type_synonym configuration = "interface list list"

record device =
  get_active_configuration :: "exn + configuration"
  is_kernel_driver_active :: "nat \<Rightarrow> exn + bool"
  detach_kernel_driver :: "nat \<Rightarrow> exn + unit"
  ctrl_transfer :: "nat \<Rightarrow> nat \<Rightarrow> nat \<Rightarrow> nat \<Rightarrow> int list \<Rightarrow> exn + int"
  attach_kernel_driver :: "nat \<Rightarrow> exn + unit"
  dispose_resources :: "exn + unit"

record env =
  geteuid :: nat
  argv :: "string list"
  find :: "nat \<Rightarrow> nat \<Rightarrow> exn + device option"

datatype event =
    Find nat nat
  | GetActiveConfiguration
  | IsKernelDriverActive nat
  | DetachKernelDriver nat
  | Print string
  | CtrlTransfer nat nat nat nat "int list"
  | AttachKernelDriver nat
  | DisposeResources

type_synonym outcome = "event list \<times> exit"

subsection \<open>The payload (lines 52 to 65)\<close>

definition data_hq :: "int list" where
  "data_hq = [0x03, 0x5a, 0x6b, 0x03, 0x0a, 0x03, 0x40]"

definition data_ll :: "int list" where
  "data_ll = [0x03, 0x5a, 0x6b, 0x03, 0x0a, 0x03, 0x20]"

definition select_data :: "string \<Rightarrow> int list" where
  "select_data mode = (if mode = ''hq'' then data_hq else data_ll)"

definition announce :: "string \<Rightarrow> string" where
  "announce mode =
     (if mode = ''hq'' then ''Switching to AptX Adaptive High Quality mode...''
      else ''Switching to AptX Adaptive Low Latency mode...'')"

text \<open>
  \<open>list(itertools.chain(data, [0x00] * (65 - len(data))))\<close>; a list times a negative
  number is the empty list.
\<close>

definition pad :: "int list \<Rightarrow> int list" where
  "pad d = d @ replicate (nat (65 - int (length d))) 0x00"

definition payload :: "string \<Rightarrow> int list" where
  "payload mode = pad (select_data mode)"

subsection \<open>The script, last step first\<close>

text \<open>Line 84: release the device; then the script ends.\<close>

definition cleanup :: "device \<Rightarrow> event list \<Rightarrow> outcome" where
  "cleanup dev tr =
     (case dispose_resources dev of
        Inl e \<Rightarrow> (tr @ [DisposeResources], Uncaught e)
      | Inr u \<Rightarrow> (tr @ [DisposeResources], Completed))"

text \<open>Lines 77 to 81: reattach the kernel driver if it was detached.\<close>

definition reattach_driver :: "device \<Rightarrow> nat \<Rightarrow> bool \<Rightarrow> event list \<Rightarrow> outcome" where
  "reattach_driver dev i reattach tr =
     (if reattach then
        (case attach_kernel_driver dev i of
           Inl e \<Rightarrow>
             if is_USBError e
             then (tr @ [AttachKernelDriver i], SysExit ''Could not reattach kernel driver: '' (Some e))
             else (tr @ [AttachKernelDriver i], Uncaught e)
         | Inr u \<Rightarrow> cleanup dev (tr @ [AttachKernelDriver i]))
      else cleanup dev tr)"

text \<open>
  Lines 52 to 74: choose and pad the data, send the control transfer; a result other
  than \<open>len(data)\<close> raises a \<open>USBError\<close> that the same handler catches.
\<close>

definition send_transfer :: "device \<Rightarrow> nat \<Rightarrow> bool \<Rightarrow> string \<Rightarrow> event list \<Rightarrow> outcome" where
  "send_transfer dev i reattach mode tr =
     (let data = pad (select_data mode);
          tr' = tr @ [Print (announce mode), CtrlTransfer 0x21 0x09 0x203 0x00 data]
      in case ctrl_transfer dev 0x21 0x09 0x203 0x00 data of
           Inl e \<Rightarrow>
             if is_USBError e
             then (tr', SysExit ''Failed to send control transfer: '' (Some e))
             else (tr', Uncaught e)
         | Inr result \<Rightarrow>
             if result \<noteq> int (length data)
             then (tr', SysExit ''Failed to send control transfer: ''
                          (Some (USBError ''Incomplete control transfer.'')))
             else reattach_driver dev i reattach (tr' @ [Print ''Mode switch successful.'']))"

text \<open>Lines 44 to 50: detach the kernel driver if it is active on interface \<open>i\<close>.\<close>

definition detach_driver :: "device \<Rightarrow> nat \<Rightarrow> string \<Rightarrow> event list \<Rightarrow> outcome" where
  "detach_driver dev i mode tr =
     (case is_kernel_driver_active dev i of
        Inl e \<Rightarrow> (tr @ [IsKernelDriverActive i], Uncaught e)
      | Inr active \<Rightarrow>
          if active then
            (case detach_kernel_driver dev i of
               Inl e \<Rightarrow>
                 if is_USBError e
                 then (tr @ [IsKernelDriverActive i, DetachKernelDriver i],
                       SysExit ''Could not detach kernel driver: '' (Some e))
                 else (tr @ [IsKernelDriverActive i, DetachKernelDriver i], Uncaught e)
             | Inr u \<Rightarrow>
                 send_transfer dev i True mode (tr @ [IsKernelDriverActive i, DetachKernelDriver i]))
          else send_transfer dev i False mode (tr @ [IsKernelDriverActive i]))"

text \<open>
  Lines 37 to 39, inside the \<open>try\<close>: \<open>intf = cfg[(0, 0)]\<close>, \<open>ep = intf[0]\<close>,
  \<open>i = intf.bInterfaceNumber\<close>.
\<close>

definition first_interface :: "configuration \<Rightarrow> exn + nat" where
  "first_interface cfg =
     (case cfg of
        [] \<Rightarrow> Inl IndexError
      | alts # rest \<Rightarrow>
          (case alts of
             [] \<Rightarrow> Inl IndexError
           | intf # others \<Rightarrow>
               (case endpoints intf of
                  [] \<Rightarrow> Inl IndexError
                | ep # eps \<Rightarrow> Inr (bInterfaceNumber intf))))"

text \<open>Lines 35 to 41: every exception of the block is caught and ends the program.\<close>

definition obtain_interface :: "device \<Rightarrow> string \<Rightarrow> event list \<Rightarrow> outcome" where
  "obtain_interface dev mode tr =
     (case get_active_configuration dev of
        Inl e \<Rightarrow> (tr @ [GetActiveConfiguration],
                   SysExit ''Failed to retrieve the device configuration: '' (Some e))
      | Inr cfg \<Rightarrow>
          (case first_interface cfg of
             Inl e \<Rightarrow> (tr @ [GetActiveConfiguration],
                        SysExit ''Failed to retrieve the device configuration: '' (Some e))
           | Inr i \<Rightarrow> detach_driver dev i mode (tr @ [GetActiveConfiguration])))"

text \<open>Lines 21 to 32: the privilege check, the argument parser, the search for the device.\<close>

definition main :: "env \<Rightarrow> outcome" where
  "main env =
     (if geteuid env \<noteq> 0
      then ([], SysExit ''This script must be run as root. Try using 'sudo'.'' None)
      else case parse_args (argv env) of
        SystemExit c \<Rightarrow> ([], ArgparseExit c)
      | Namespace mode \<Rightarrow>
          (case find env 0x041e 0x3130 of
             Inl e \<Rightarrow> ([Find 0x041e 0x3130], Uncaught e)
           | Inr None \<Rightarrow>
               ([Find 0x041e 0x3130],
                SysExit ''BT-W5 device not found. Check if it is connected or permissions on /dev/bus/usb/...'' None)
           | Inr (Some dev) \<Rightarrow> obtain_interface dev mode [Find 0x041e 0x3130]))"

definition trace :: "env \<Rightarrow> event list" where
  "trace env = fst (main env)"

definition exit_of :: "env \<Rightarrow> exit" where
  "exit_of env = snd (main env)"

subsection \<open>Notions the properties are stated with\<close>

text \<open>An option string of the command line at which the help action runs.\<close>

definition takes_help :: "token_class \<Rightarrow> bool" where
  "takes_help c =
     (case c of Opt (known, option_string, sep, explicit_arg) \<Rightarrow>
                  consume_optional known option_string sep explicit_arg = TakeHelp
              | _ \<Rightarrow> False)"

text \<open>
  The control transfers of a run; what it means that every step up to the release of the
  device succeeds, and that the release succeeds.
\<close>

definition is_ctrl_transfer :: "event \<Rightarrow> bool" where
  "is_ctrl_transfer ev = (case ev of CtrlTransfer rt rq v ix d \<Rightarrow> True | _ \<Rightarrow> False)"

definition transfers :: "env \<Rightarrow> event list" where
  "transfers env = filter is_ctrl_transfer (trace env)"

definition driver_steps_succeed :: "device \<Rightarrow> nat \<Rightarrow> bool" where
  "driver_steps_succeed dev i =
     (is_kernel_driver_active dev i = Inr False \<or>
      (is_kernel_driver_active dev i = Inr True \<and> detach_kernel_driver dev i = Inr () \<and>
       attach_kernel_driver dev i = Inr ()))"

definition steps_succeed :: "env \<Rightarrow> bool" where
  "steps_succeed env =
     (geteuid env = 0 \<and>
      (case parse_args (argv env) of
         SystemExit c \<Rightarrow> False
       | Namespace mode \<Rightarrow>
           (case find env 0x041e 0x3130 of
              Inl e \<Rightarrow> False
            | Inr None \<Rightarrow> False
            | Inr (Some dev) \<Rightarrow>
                (case get_active_configuration dev of
                   Inl e \<Rightarrow> False
                 | Inr cfg \<Rightarrow>
                     (case first_interface cfg of
                        Inl e \<Rightarrow> False
                      | Inr i \<Rightarrow>
                          driver_steps_succeed dev i \<and>
                          ctrl_transfer dev 0x21 0x09 0x203 0x00 (payload mode) = Inr 65)))))"

definition release_succeeds :: "env \<Rightarrow> bool" where
  "release_succeeds env =
     (case find env 0x041e 0x3130 of
        Inr (Some dev) \<Rightarrow> dispose_resources dev = Inr ()
      | _ \<Rightarrow> False)"

definition whole_sequence_succeeds :: "env \<Rightarrow> bool" where
  "whole_sequence_succeeds env = (steps_succeed env \<and> release_succeeds env)"

text \<open>
  The command lines, by their strings alone. A help option is \<open>--help\<close> or an
  abbreviation of it, or \<open>-h\<close>, alone or followed by further letters \<open>h\<close> and then,
  if anything, by a character other than \<open>-\<close> and \<open>=\<close>; a malformed help option is
  one with an argument it does not take (\<open>-h=x\<close>, \<open>--help=x\<close>, \<open>-h-\<close>). A
  positional string is one that does not begin with \<open>-\<close>, the string \<open>-\<close>, or a
  string that looks like a negative number or holds a space and is no help option.

  A command line requests the help when a help option stands before any \<open>--\<close>, no
  malformed help option stands before the first of them, and the first positional string
  before it, if there is one, is \<open>hq\<close> or \<open>ll\<close>. It is valid when it is one of the
  two modes, alone or next to a \<open>--\<close>.
\<close>

definition cluster :: "string \<Rightarrow> bool" where
  "cluster c =
     (case dropWhile (\<lambda>x. x = CHR ''h'') c of
        [] \<Rightarrow> True
      | x # r \<Rightarrow> x \<noteq> CHR ''-'' \<and> x \<noteq> CHR ''='')"

definition help_option :: "string \<Rightarrow> bool" where
  "help_option t =
     (t \<in> set [''--h'', ''--he'', ''--hel'', ''--help''] \<or> (prefix ''-h'' t \<and> cluster (drop 2 t)))"

definition malformed_help :: "string \<Rightarrow> bool" where
  "malformed_help t =
     ((prefix ''-h'' t \<and> \<not> cluster (drop 2 t)) \<or>
      (prefix ''--'' t \<and> CHR ''='' \<in> set t \<and> prefix (takeWhile (\<lambda>c. c \<noteq> CHR ''='') t) ''--help''))"

definition positional :: "string \<Rightarrow> bool" where
  "positional t =
     (t = [] \<or> hd t \<noteq> CHR ''-'' \<or> t = ''-'' \<or>
      (\<not> help_option t \<and> \<not> malformed_help t \<and> (negative_number t \<or> CHR 0x20 \<in> set t)))"

definition requests_help :: "string list \<Rightarrow> bool" where
  "requests_help args =
     (let front = takeWhile (\<lambda>s. s \<noteq> ''--'') args;
          skipped = takeWhile (\<lambda>t. \<not> help_option t) front
      in list_ex help_option front \<and>
         list_all (\<lambda>t. \<not> malformed_help t) skipped \<and>
         (case filter positional skipped of [] \<Rightarrow> True | a # r \<Rightarrow> a \<in> set choices))"

definition valid_command_line :: "string list \<Rightarrow> bool" where
  "valid_command_line args =
     list_ex (\<lambda>m. args = [m] \<or> args = [''--'', m] \<or> args = [m, ''--'']) choices"

text \<open>The same for the strings that lie ahead in the main loop of the parser.\<close>

definition help_ahead :: "string option \<Rightarrow> string list \<Rightarrow> bool" where
  "help_ahead mode front =
     (list_ex help_option front \<and>
      list_all (\<lambda>t. \<not> malformed_help t) (takeWhile (\<lambda>t. \<not> help_option t) front) \<and>
      (mode = None \<longrightarrow>
         (case filter positional (takeWhile (\<lambda>t. \<not> help_option t) front) of
            [] \<Rightarrow> True
          | a # r \<Rightarrow> a \<in> set choices)))"

text \<open>
  A run reaches the driver step when the privilege check, the argument parser, the search
  for the device and the retrieval of the interface number \<open>i\<close> all succeed; it reaches
  the transfer when, moreover, the kernel driver is not active (\<open>detached\<close> false) or is
  active and has been detached (\<open>detached\<close> true). \<open>driver_events\<close> and
  \<open>transfer_events\<close> are the events of a run up to the control transfer.
\<close>

definition reaches_driver_step :: "env \<Rightarrow> string \<Rightarrow> device \<Rightarrow> nat \<Rightarrow> bool" where
  "reaches_driver_step env mode dev i =
     (geteuid env = 0 \<and> parse_args (argv env) = Namespace mode \<and>
      find env 0x041e 0x3130 = Inr (Some dev) \<and>
      (case get_active_configuration dev of
         Inl e \<Rightarrow> False
       | Inr cfg \<Rightarrow> first_interface cfg = Inr i))"

definition reaches_transfer :: "env \<Rightarrow> string \<Rightarrow> device \<Rightarrow> nat \<Rightarrow> bool \<Rightarrow> bool" where
  "reaches_transfer env mode dev i detached =
     (reaches_driver_step env mode dev i \<and>
      (if detached
       then is_kernel_driver_active dev i = Inr True \<and> detach_kernel_driver dev i = Inr ()
       else is_kernel_driver_active dev i = Inr False))"

definition driver_events :: "nat \<Rightarrow> bool \<Rightarrow> event list" where
  "driver_events i detached =
     [Find 0x041e 0x3130, GetActiveConfiguration, IsKernelDriverActive i] @
     (if detached then [DetachKernelDriver i] else [])"

definition transfer_events :: "string \<Rightarrow> event list" where
  "transfer_events mode =
     [Print (announce mode), CtrlTransfer 0x21 0x09 0x203 0x00 (payload mode)]"

subsection \<open>Environments for the examples\<close>

text \<open>
  A device with one configuration, one interface (number 3) and one endpoint, whose
  answers to the driver calls and to the control transfer are parameters; an environment
  in which the bus holds this device, or none, under the identifiers of the BT-W5; three
  answers to the control transfer.
\<close>

definition sample_interface :: interface where
  "sample_interface = \<lparr>bInterfaceNumber = 3, endpoints = [0x81]\<rparr>"

definition sample_device :: "bool \<Rightarrow> exn + unit \<Rightarrow> (int list \<Rightarrow> exn + int) \<Rightarrow> exn + unit \<Rightarrow> device" where
  "sample_device active detached transferred attached =
     \<lparr>get_active_configuration = Inr [[sample_interface]],
      is_kernel_driver_active = (\<lambda>i. Inr active),
      detach_kernel_driver = (\<lambda>i. detached),
      ctrl_transfer = (\<lambda>rt rq v ix d. transferred d),
      attach_kernel_driver = (\<lambda>i. attached),
      dispose_resources = Inr ()\<rparr>"

definition sample_env :: "nat \<Rightarrow> string list \<Rightarrow> device option \<Rightarrow> env" where
  "sample_env uid args dev = \<lparr>geteuid = uid, argv = args, find = (\<lambda>v p. if v = 0x041e \<and> p = 0x3130 then Inr dev else Inr None)\<rparr>"

definition accepts_all :: "int list \<Rightarrow> exn + int" where
  "accepts_all d = Inr (int (length d))"

definition times_out :: "int list \<Rightarrow> exn + int" where
  "times_out d = Inl (USBError ''Operation timed out'')"

definition short_write :: "int list \<Rightarrow> exn + int" where
  "short_write d = Inr 64"

section \<open>Properties\<close>

subsection \<open>The argument parser\<close>

declare consume_optional.simps [simp del]

lemma is_option_simps [simp]:
  "is_option (Opt t) = True" "is_option Arg = False" "is_option Ambiguous = False"
  by (simp_all add: is_option_def)

lemma finish_Namespace: "finish mode ex rest = Namespace m \<Longrightarrow> mode = Some m"
  by (auto simp: finish_def split: option.splits if_splits)

lemma finish_exit: "finish mode ex rest = SystemExit c \<Longrightarrow> c = 2"
  by (auto simp: finish_def split: option.splits if_splits)

lemma parse_rest_Namespace:
  "parse_rest mode ex as post = Namespace m \<Longrightarrow>
     mode = Some m \<or> (mode = None \<and> check_value m \<and> m \<in> set (as @ post))"
  by (auto simp: parse_rest_def split: option.splits list.splits if_splits dest!: finish_Namespace)

lemma parse_rest_exit: "parse_rest mode ex as post = SystemExit c \<Longrightarrow> c = 2"
  by (auto simp: parse_rest_def split: option.splits list.splits if_splits dest!: finish_exit)

lemma parse_loop_Namespace:
  "parse_loop mode ex ts post = Namespace m \<Longrightarrow>
     mode = Some m \<or> (mode = None \<and> check_value m \<and> m \<in> set (map fst ts @ post))"
proof (induction mode ex ts post rule: parse_loop.induct)
  case (1 mode extras post)
  then show ?case using parse_rest_Namespace [of mode extras "[]" post m] by simp
next
  case (2 mode extras s c ts post)
  show ?case
  proof (cases "list_ex (\<lambda>(s, c). is_option c) ((s, c) # ts)")
    case False
    with 2 show ?thesis
      using parse_rest_Namespace [of mode extras "s # map fst ts" post m] by auto
  next
    case True
    with 2 show ?thesis
      by (auto split: token_class.splits consumed.splits option.splits if_splits)
  qed
qed

lemma parse_args_Namespace:
  assumes "parse_args args = Namespace m"
  shows "m \<in> set choices \<and> m \<in> set args"
proof -
  let ?pre = "takeWhile (\<lambda>s. s \<noteq> ''--'') args"
  let ?post = "dropWhile (\<lambda>s. s \<noteq> ''--'') args"
  from assms have "parse_loop None False (zip ?pre (map parse_optional ?pre)) ?post = Namespace m"
    by (simp add: parse_args_def Let_def split: if_splits)
  from parse_loop_Namespace [OF this]
  have cv: "check_value m" and mem: "m \<in> set (map fst (zip ?pre (map parse_optional ?pre)) @ ?post)"
    by auto
  have "map fst (zip ?pre (map parse_optional ?pre)) = ?pre"
    by (simp add: map_fst_zip)
  with mem have "m \<in> set (?pre @ ?post)" by simp
  then have "m \<in> set args" by simp
  with cv show ?thesis by (simp add: check_value_def)
qed

lemma takes_help_simps [simp]:
  "takes_help (Opt (k, os, sep, ea)) = (consume_optional k os sep ea = TakeHelp)"
  "takes_help Arg = False" "takes_help Ambiguous = False"
  by (simp_all add: takes_help_def)

lemma parse_loop_exit:
  "parse_loop mode ex ts post = SystemExit c \<Longrightarrow>
     c = 2 \<or> (c = 0 \<and> (\<exists>x\<in>set ts. takes_help (snd x)))"
proof (induction mode ex ts post rule: parse_loop.induct)
  case (1 mode extras post)
  then show ?case using parse_rest_exit [of mode extras "[]" post c] by simp
next
  case (2 mode extras s c' ts post)
  show ?case
  proof (cases "list_ex (\<lambda>(s, c). is_option c) ((s, c') # ts)")
    case False
    with 2 show ?thesis
      using parse_rest_exit [of mode extras "s # map fst ts" post c] by auto
  next
    case True
    with 2 show ?thesis
      by (auto split: token_class.splits consumed.splits option.splits if_splits) blast
  qed
qed

lemma takes_help_prefix:
  assumes ne: "s \<noteq> ''--''" and th: "takes_help (parse_optional s)"
  shows "prefix ''-h'' s \<or> prefix ''--h'' s"
proof (cases s)
  case Nil
  with th show ?thesis by (simp add: parse_optional_def)
next
  case s1: (Cons c1 r1)
  show ?thesis
  proof (cases r1)
    case Nil
    with s1 th show ?thesis
      by (auto simp: parse_optional_def option_strings_def split: if_splits)
  next
    case s2: (Cons c2 r2)
    show ?thesis
    proof (cases "c1 = CHR ''-''")
      case False
      with s1 th show ?thesis by (simp add: parse_optional_def)
    next
      case dash: True
      consider (h) "c2 = CHR ''h''" | (dd) "c2 = CHR ''-''" | (other) "c2 \<noteq> CHR ''h''" "c2 \<noteq> CHR ''-''"
        by blast
      then show ?thesis
      proof cases
        case h
        with s1 s2 dash show ?thesis by simp
      next
        case other
        with s1 s2 dash th show ?thesis
          by (auto simp: parse_optional_def option_strings_def partition_eq_def
                get_option_tuples_def consume_optional.simps split: if_splits)
      next
        case dd
        show ?thesis
        proof (cases r2)
          case Nil
          with s1 s2 dash dd ne show ?thesis by simp
        next
          case s3: (Cons c3 r3)
          show ?thesis
          proof (cases "c3 = CHR ''h''")
            case True
            with s1 s2 s3 dash dd show ?thesis by simp
          next
            case False
            with s1 s2 s3 dash dd th show ?thesis
              by (auto simp: parse_optional_def option_strings_def partition_eq_def
                    get_option_tuples_def consume_optional.simps split: if_splits)
          qed
        qed
      qed
    qed
  qed
qed

lemma zip_map_same: "zip xs (map f xs) = map (\<lambda>x. (x, f x)) xs"
  by (induction xs) simp_all

lemma parse_args_exit:
  assumes "parse_args args = SystemExit c"
  shows "c = 2 \<or> (c = 0 \<and> (\<exists>s\<in>set args. prefix ''-h'' s \<or> prefix ''--h'' s))"
proof (cases "c = 2")
  case True
  then show ?thesis by simp
next
  case False
  let ?pre = "takeWhile (\<lambda>s. s \<noteq> ''--'') args"
  let ?post = "dropWhile (\<lambda>s. s \<noteq> ''--'') args"
  from assms False
  have "parse_loop None False (zip ?pre (map parse_optional ?pre)) ?post = SystemExit c"
    by (simp add: parse_args_def Let_def split: if_splits)
  from parse_loop_exit [OF this] False
  obtain x where c0: "c = 0" and x: "x \<in> set (zip ?pre (map parse_optional ?pre))"
    and th: "takes_help (snd x)"
    by blast
  from x obtain s where s: "s \<in> set ?pre" and xs: "x = (s, parse_optional s)"
    by (auto simp: zip_map_same)
  from s have "s \<noteq> ''--''" and mem: "s \<in> set args"
    by (auto dest: set_takeWhileD)
  with th xs have "prefix ''-h'' s \<or> prefix ''--h'' s"
    using takes_help_prefix [of s] by simp
  with c0 mem show ?thesis by blast
qed

lemma parse_args_help: "parse_args [''-h''] = SystemExit 0" "parse_args [''--help''] = SystemExit 0"
  by (simp_all add: parse_args_def parse_optional_def option_strings_def is_option_def
        consume_optional.simps)

lemma parse_args_modes: "parse_args [''hq''] = Namespace ''hq''" "parse_args [''ll''] = Namespace ''ll''"
  by (simp_all add: parse_args_def parse_optional_def option_strings_def is_option_def
        parse_rest_def check_value_def choices_def finish_def)

lemma parse_args_empty: "parse_args [] = SystemExit 2"
  by (simp add: parse_args_def parse_rest_def finish_def)

text \<open>The outcome of the parser, read off the strings of the command line.\<close>

lemma consume_unknown [simp]: "consume_optional False os sep ea = Extras"
  by (simp add: consume_optional.simps)

lemma consume_no_argument [simp]: "consume_optional True os sep None = TakeHelp"
  by (simp add: consume_optional.simps)

lemma consume_separator [simp]: "consume_optional True os True (Some e) = ArgumentError"
  by (simp add: consume_optional.simps)

lemma cluster_simps [simp]:
  "cluster [] = True"
  "cluster (CHR ''h'' # r) = cluster r"
  "x \<noteq> CHR ''h'' \<Longrightarrow> cluster (x # r) = (x \<noteq> CHR ''-'' \<and> x \<noteq> CHR ''='')"
  by (simp_all add: cluster_def)

lemma consume_step:
  "consume_optional True ''-h'' False (Some (x # r)) =
     (if x = CHR ''-'' then ArgumentError
      else if x = CHR ''h'' then
        (if r = [] then TakeHelp
         else if hd r = CHR ''='' then ArgumentError
         else consume_optional True ''-h'' False (Some r))
      else TakeHelp)"
  by (subst consume_optional.simps) (auto simp: option_strings_def)

lemma consume_cluster:
  "e \<noteq> [] \<Longrightarrow> hd e \<noteq> CHR ''='' \<Longrightarrow>
   consume_optional True ''-h'' False (Some e) = (if cluster e then TakeHelp else ArgumentError)"
proof (induction e)
  case Nil
  then show ?case by simp
next
  case (Cons x r)
  show ?case
  proof (cases "x = CHR ''h'' \<and> r \<noteq> [] \<and> hd r \<noteq> CHR ''=''")
    case True
    with Cons.IH have "consume_optional True ''-h'' False (Some r) =
        (if cluster r then TakeHelp else ArgumentError)"
      by simp
    with True show ?thesis by (simp add: consume_step)
  next
    case False
    with Cons.prems show ?thesis
      by (cases r) (auto simp: consume_step)
  qed
qed

lemma help_option_short: "help_option (CHR ''-'' # CHR ''h'' # r) = cluster r"
  by (simp add: help_option_def)

lemma malformed_help_short: "malformed_help (CHR ''-'' # CHR ''h'' # r) = (\<not> cluster r)"
  by (simp add: malformed_help_def)

lemma positional_short: "positional (CHR ''-'' # CHR ''h'' # r) = False"
  by (simp add: positional_def help_option_short malformed_help_short)

lemma parse_optional_short:
  "r \<noteq> [] \<Longrightarrow>
   parse_optional (CHR ''-'' # CHR ''h'' # r) =
     (if hd r = CHR ''='' then Opt (True, ''-h'', True, Some (tl r))
      else Opt (True, ''-h'', False, Some r))"
  by (cases r)
     (simp_all add: parse_optional_def option_strings_def partition_eq_def get_option_tuples_def)

lemma prefix_help: "prefix r ''help'' = (r \<in> set [[], ''h'', ''he'', ''hel'', ''help''])"
  using in_set_prefixes [of r "''help''"] by simp

lemma help_option_long:
  "r \<noteq> [] \<Longrightarrow>
   help_option (CHR ''-'' # CHR ''-'' # r) = (CHR ''='' \<notin> set r \<and> prefix r ''help'')"
  by (auto simp: help_option_def prefix_help)

lemma malformed_help_long:
  "malformed_help (CHR ''-'' # CHR ''-'' # r) =
     (CHR ''='' \<in> set r \<and> prefix (takeWhile (\<lambda>c. c \<noteq> CHR ''='') r) ''help'')"
  by (simp add: malformed_help_def)

lemma takeWhile_no_separator: "CHR ''='' \<notin> set r \<Longrightarrow> takeWhile (\<lambda>c. c \<noteq> CHR ''='') r = r"
  by (induction r) auto

lemma parse_optional_long:
  assumes "r \<noteq> []"
  shows "parse_optional (CHR ''-'' # CHR ''-'' # r) =
     (if prefix (takeWhile (\<lambda>c. c \<noteq> CHR ''='') r) ''help''
      then Opt (True, ''--help'', CHR ''='' \<in> set r,
             if CHR ''='' \<in> set r then Some (drop 1 (dropWhile (\<lambda>c. c \<noteq> CHR ''='') r)) else None)
      else if negative_number (CHR ''-'' # CHR ''-'' # r) then Arg
      else if CHR 0x20 \<in> set r then Arg
      else Opt (False, CHR ''-'' # CHR ''-'' # r, False, None))"
proof (cases "r = ''help''")
  case True
  then show ?thesis by (simp add: parse_optional_def option_strings_def)
next
  case False
  with assms show ?thesis
    by (simp add: parse_optional_def option_strings_def partition_eq_def get_option_tuples_def)
qed

lemma help_option_other:
  "c \<noteq> CHR ''h'' \<Longrightarrow> c \<noteq> CHR ''-'' \<Longrightarrow> help_option (CHR ''-'' # c # r) = False"
  by (simp add: help_option_def)

lemma malformed_help_other:
  "c \<noteq> CHR ''h'' \<Longrightarrow> c \<noteq> CHR ''-'' \<Longrightarrow> malformed_help (CHR ''-'' # c # r) = False"
  by (simp add: malformed_help_def)

lemma parse_optional_other:
  "c \<noteq> CHR ''h'' \<Longrightarrow> c \<noteq> CHR ''-'' \<Longrightarrow>
   parse_optional (CHR ''-'' # c # r) =
     (if negative_number (CHR ''-'' # c # r) then Arg
      else if CHR 0x20 \<in> set (c # r) then Arg
      else Opt (False, CHR ''-'' # c # r, False, None))"
  by (simp add: parse_optional_def option_strings_def partition_eq_def get_option_tuples_def)

lemma token_cases [consumes 1, case_names tok_positional tok_help tok_malformed tok_unknown]:
  assumes ne: "s \<noteq> ''--''"
  obtains
    (tok_positional) "positional s" "\<not> help_option s" "\<not> malformed_help s"
      "parse_optional s = Arg"
  | (tok_help) os sep ea where "help_option s" "\<not> malformed_help s" "\<not> positional s"
      "parse_optional s = Opt (True, os, sep, ea)"
      "consume_optional True os sep ea = TakeHelp"
  | (tok_malformed) os sep ea where "malformed_help s" "\<not> help_option s" "\<not> positional s"
      "parse_optional s = Opt (True, os, sep, ea)"
      "consume_optional True os sep ea = ArgumentError"
  | (tok_unknown) "\<not> positional s" "\<not> help_option s" "\<not> malformed_help s"
      "parse_optional s = Opt (False, s, False, None)"
proof (cases s)
  case Nil
  then show ?thesis
    using tok_positional by (simp add: positional_def help_option_def malformed_help_def parse_optional_def)
next
  case s1: (Cons c1 r1)
  show ?thesis
  proof (cases "c1 = CHR ''-''")
    case False
    with s1 show ?thesis
      using tok_positional
      by (simp add: positional_def help_option_def malformed_help_def parse_optional_def)
  next
    case dash: True
    show ?thesis
    proof (cases r1)
      case Nil
      with s1 dash show ?thesis
        using tok_positional
        by (simp add: positional_def help_option_def malformed_help_def parse_optional_def
              option_strings_def)
    next
      case s2: (Cons c2 r2)
      consider (h) "c2 = CHR ''h''" "r2 = []" | (hs) "c2 = CHR ''h''" "r2 \<noteq> []"
        | (dd) "c2 = CHR ''-''" | (other) "c2 \<noteq> CHR ''h''" "c2 \<noteq> CHR ''-''"
        by blast
      then show ?thesis
      proof cases
        case h
        with s1 s2 dash have "parse_optional s = Opt (True, s, False, None)"
          by (simp add: parse_optional_def option_strings_def)
        with s1 s2 dash h show ?thesis
          using tok_help [of s False None]
          by (simp add: help_option_short malformed_help_short positional_short)
      next
        case hs
        note p = parse_optional_short [OF hs(2)]
        show ?thesis
        proof (cases "hd r2 = CHR ''=''")
          case True
          with hs(2) have "\<not> cluster r2" by (cases r2) simp_all
          with s1 s2 dash hs True p show ?thesis
            using tok_malformed [of "''-h''" True "Some (tl r2)"]
            by (simp add: help_option_short malformed_help_short positional_short)
        next
          case False
          note c = consume_cluster [OF hs(2) False]
          show ?thesis
          proof (cases "cluster r2")
            case True
            with s1 s2 dash hs False p c show ?thesis
              using tok_help [of "''-h''" False "Some r2"]
              by (simp add: help_option_short malformed_help_short positional_short)
          next
            case nc: False
            with s1 s2 dash hs False p c show ?thesis
              using tok_malformed [of "''-h''" False "Some r2"]
              by (simp add: help_option_short malformed_help_short positional_short)
          qed
        qed
      next
        case dd
        with s1 s2 dash ne have r: "r2 \<noteq> []" by auto
        note p = parse_optional_long [OF r]
        note ho = help_option_long [OF r]
        have hd: "hd s = CHR ''-''" and nd: "s \<noteq> ''-''" using s1 s2 dash by simp_all
        show ?thesis
        proof (cases "prefix (takeWhile (\<lambda>c. c \<noteq> CHR ''='') r2) ''help''")
          case pre: True
          show ?thesis
          proof (cases "CHR ''='' \<in> set r2")
            case True
            with s1 s2 dash dd pre p show ?thesis
              using tok_malformed
                [of "''--help''" True "Some (drop 1 (dropWhile (\<lambda>c. c \<noteq> CHR ''='') r2))"]
              by (simp add: ho malformed_help_long positional_def)
          next
            case False
            with pre have "prefix r2 ''help''" by (simp add: takeWhile_no_separator)
            with s1 s2 dash dd pre p False show ?thesis
              using tok_help [of "''--help''" False None]
              by (simp add: ho malformed_help_long positional_def)
          qed
        next
          case npre: False
          then have nh: "\<not> (CHR ''='' \<notin> set r2 \<and> prefix r2 ''help'')"
            by (auto simp: takeWhile_no_separator)
          show ?thesis
          proof (cases "negative_number s \<or> CHR 0x20 \<in> set s")
            case True
            with s1 s2 dash dd npre nh p show ?thesis
              using tok_positional
              by (auto simp: ho malformed_help_long positional_def)
          next
            case False
            with s1 s2 dash dd npre nh p show ?thesis
              using tok_unknown
              by (auto simp: ho malformed_help_long positional_def)
          qed
        qed
      next
        case other
        note p = parse_optional_other [OF other]
        note ho = help_option_other [OF other]
        note mh = malformed_help_other [OF other]
        show ?thesis
        proof (cases "negative_number s \<or> CHR 0x20 \<in> set s")
          case True
          with s1 s2 dash p show ?thesis
            using tok_positional by (auto simp: ho mh positional_def)
        next
          case False
          with s1 s2 dash p show ?thesis
            using tok_unknown by (auto simp: ho mh positional_def)
        qed
      qed
    qed
  qed
qed

lemma help_ahead_Nil [simp]: "help_ahead mode [] = False"
  by (simp add: help_ahead_def)

lemma help_ahead_help: "help_option s \<Longrightarrow> help_ahead mode (s # front) = True"
  by (simp add: help_ahead_def)

lemma help_ahead_malformed:
  "\<not> help_option s \<Longrightarrow> malformed_help s \<Longrightarrow> help_ahead mode (s # front) = False"
  by (simp add: help_ahead_def)

lemma help_ahead_unknown:
  "\<not> help_option s \<Longrightarrow> \<not> malformed_help s \<Longrightarrow> \<not> positional s \<Longrightarrow>
   help_ahead mode (s # front) = help_ahead mode front"
  by (simp add: help_ahead_def)

lemma help_ahead_positional:
  "\<not> help_option s \<Longrightarrow> \<not> malformed_help s \<Longrightarrow> positional s \<Longrightarrow>
   help_ahead mode (s # front) =
     (case mode of None \<Rightarrow> s \<in> set choices \<and> help_ahead (Some s) front
                 | Some m \<Rightarrow> help_ahead mode front)"
  by (auto simp: help_ahead_def split: option.splits)

lemma help_ahead_mode: "help_ahead (Some m) front = help_ahead (Some m') front"
  by (simp add: help_ahead_def)

lemma no_option_no_help:
  "''--'' \<notin> set front \<Longrightarrow>
   \<not> list_ex (\<lambda>(s, c). is_option c) (map (\<lambda>s. (s, parse_optional s)) front) \<Longrightarrow>
   help_ahead mode front = False"
proof (induction front arbitrary: mode)
  case Nil
  then show ?case by simp
next
  case (Cons s front)
  from Cons.prems have ne: "s \<noteq> ''--''" by auto
  from ne Cons show ?case
  proof (cases rule: token_cases)
    case tok_positional
    with Cons show ?thesis
      by (simp add: help_ahead_positional help_ahead_mode split: option.split)
  qed simp_all
qed

lemma parse_loop_help:
  "''--'' \<notin> set front \<Longrightarrow>
   (parse_loop mode ex (map (\<lambda>s. (s, parse_optional s)) front) post = SystemExit 0) =
     help_ahead mode front"
proof (induction front arbitrary: mode ex)
  case Nil
  have "parse_rest mode ex [] post \<noteq> SystemExit 0"
    using parse_rest_exit [of mode ex "[]" post 0] by auto
  then show ?case by simp
next
  case (Cons s front)
  from Cons.prems have ne: "s \<noteq> ''--''" and nf: "''--'' \<notin> set front" by auto
  note IH = Cons.IH [OF nf]
  from ne show ?case
  proof (cases rule: token_cases)
    case (tok_help os sep ea)
    then show ?thesis by (simp add: help_ahead_help)
  next
    case (tok_malformed os sep ea)
    then show ?thesis by (simp add: help_ahead_malformed)
  next
    case tok_unknown
    then show ?thesis by (simp add: help_ahead_unknown IH)
  next
    case tok_positional
    show ?thesis
    proof (cases "list_ex (\<lambda>(s, c). is_option c) (map (\<lambda>s. (s, parse_optional s)) front)")
      case False
      with tok_positional have none:
        "\<not> list_ex (\<lambda>(s, c). is_option c) (map (\<lambda>s. (s, parse_optional s)) (s # front))"
        by simp
      from no_option_no_help [OF Cons.prems none] have h: "help_ahead mode (s # front) = False" .
      from none have "parse_loop mode ex (map (\<lambda>s. (s, parse_optional s)) (s # front)) post =
          parse_rest mode ex (s # map fst (map (\<lambda>s. (s, parse_optional s)) front)) post"
        by simp
      moreover have "parse_rest mode ex (s # map fst (map (\<lambda>s. (s, parse_optional s)) front)) post
          \<noteq> SystemExit 0"
        using parse_rest_exit [of mode ex _ post 0] by auto
      ultimately show ?thesis using h by simp
    next
      case True
      with tok_positional show ?thesis
        by (cases mode)
           (auto simp: help_ahead_positional IH check_value_def help_ahead_mode)
    qed
  qed
qed

lemma parse_optional_not_ambiguous:
  assumes "s \<noteq> ''--''"
  shows "parse_optional s \<noteq> Ambiguous"
  using assms
proof (cases rule: token_cases)
  case tok_positional
  then show ?thesis by simp
next
  case (tok_help os sep ea)
  then show ?thesis by simp
next
  case (tok_malformed os sep ea)
  then show ?thesis by simp
next
  case tok_unknown
  then show ?thesis by simp
qed

lemma parse_args_loop:
  "parse_args args =
     parse_loop None False
       (map (\<lambda>s. (s, parse_optional s)) (takeWhile (\<lambda>s. s \<noteq> ''--'') args))
       (dropWhile (\<lambda>s. s \<noteq> ''--'') args)"
proof -
  have "parse_optional x \<noteq> Ambiguous" if "x \<in> set (takeWhile (\<lambda>s. s \<noteq> ''--'') args)" for x
    using that by (intro parse_optional_not_ambiguous) (auto dest: set_takeWhileD)
  then have "Ambiguous \<notin> set (map parse_optional (takeWhile (\<lambda>s. s \<noteq> ''--'') args))"
    by force
  then show ?thesis
    by (simp add: parse_args_def Let_def zip_map_same)
qed

lemma parse_args_help_iff: "(parse_args args = SystemExit 0) = requests_help args"
proof -
  have "''--'' \<notin> set (takeWhile (\<lambda>s. s \<noteq> ''--'') args)"
    by (auto dest: set_takeWhileD)
  from parse_loop_help [OF this] show ?thesis
    by (simp add: parse_args_loop requests_help_def help_ahead_def Let_def)
qed

lemma parse_rest_extras: "parse_rest mode True as post \<noteq> Namespace m"
  by (auto simp: parse_rest_def finish_def split: option.splits list.splits)

lemma parse_loop_extras: "parse_loop mode True ts post \<noteq> Namespace m"
proof (induction mode "True" ts post rule: parse_loop.induct)
  case (1 mode post)
  then show ?case by (simp add: parse_rest_extras)
next
  case (2 mode s c ts post)
  then show ?case
    by (auto simp: parse_rest_extras split: token_class.splits consumed.splits option.splits)
qed

lemma parse_loop_option:
  "list_ex (\<lambda>(s, c). is_option c) ts \<Longrightarrow> parse_loop mode ex ts post \<noteq> Namespace m"
proof (induction ts arbitrary: mode ex)
  case Nil
  then show ?case by simp
next
  case (Cons x ts)
  obtain s c where x: "x = (s, c)" by (cases x)
  show ?case
  proof (cases "is_option c")
    case True
    then obtain k os sep ea where "c = Opt (k, os, sep, ea)"
      by (cases c) (auto simp: is_option_def)
    with x show ?thesis
      by (simp add: parse_loop_extras split: consumed.split)
  next
    case False
    with Cons.prems x have ahead: "list_ex (\<lambda>(s, c). is_option c) ts" by simp
    from False have "\<And>t. c \<noteq> Opt t" by (auto simp: is_option_def)
    with x ahead Cons.IH [OF ahead] show ?thesis
      by (cases c; cases mode) (simp_all add: parse_loop_extras)
  qed
qed

lemma parse_loop_no_option:
  "\<not> list_ex (\<lambda>(s, c). is_option c) ts \<Longrightarrow>
   parse_loop mode ex ts post = parse_rest mode ex (map fst ts) post"
  by (cases ts) auto

lemma parse_rest_Namespace_iff:
  "(parse_rest None False as post = Namespace m) =
     (check_value m \<and> ((as = [m] \<and> drop 1 post = []) \<or> (as = [] \<and> (\<exists>dd. post = [dd, m]))))"
  by (auto simp: parse_rest_def finish_def split: list.splits)

lemma dropWhile_separator:
  "dropWhile (\<lambda>s. s \<noteq> ''--'') args = [] \<or>
   (\<exists>r. dropWhile (\<lambda>s. s \<noteq> ''--'') args = ''--'' # r)"
  using hd_dropWhile [of "\<lambda>s. s \<noteq> ''--''" args]
  by (cases "dropWhile (\<lambda>s. s \<noteq> ''--'') args") auto

lemma parse_args_valid:
  assumes "m \<in> set choices"
  shows "parse_args [m] = Namespace m" "parse_args [''--'', m] = Namespace m"
    "parse_args [m, ''--''] = Namespace m"
  using assms
  by (auto simp: parse_args_def parse_optional_def parse_rest_def finish_def check_value_def
        choices_def)

lemma parse_args_Namespace_iff:
  "(parse_args args = Namespace m) =
     (m \<in> set choices \<and> (args = [m] \<or> args = [''--'', m] \<or> args = [m, ''--'']))"
proof
  assume "m \<in> set choices \<and> (args = [m] \<or> args = [''--'', m] \<or> args = [m, ''--''])"
  then show "parse_args args = Namespace m"
    using parse_args_valid [of m] by auto
next
  let ?front = "takeWhile (\<lambda>s. s \<noteq> ''--'') args"
  let ?post = "dropWhile (\<lambda>s. s \<noteq> ''--'') args"
  let ?ts = "map (\<lambda>s. (s, parse_optional s)) ?front"
  assume ns: "parse_args args = Namespace m"
  then have loop: "parse_loop None False ?ts ?post = Namespace m"
    by (simp add: parse_args_loop)
  then have "\<not> list_ex (\<lambda>(s, c). is_option c) ?ts"
    using parse_loop_option [of ?ts None False ?post m] by blast
  from parse_loop_no_option [OF this] loop
  have "parse_rest None False (map fst ?ts) ?post = Namespace m" by simp
  moreover have "map fst ?ts = ?front" by (simp add: comp_def)
  ultimately have rest: "parse_rest None False ?front ?post = Namespace m" by simp
  have args: "args = ?front @ ?post" by simp
  from rest have cv: "check_value m"
    and shape: "(?front = [m] \<and> drop 1 ?post = []) \<or> (?front = [] \<and> (\<exists>dd. ?post = [dd, m]))"
    by (simp_all add: parse_rest_Namespace_iff)
  from shape dropWhile_separator [of args]
  have "?front @ ?post = [m] \<or> ?front @ ?post = [''--'', m] \<or> ?front @ ?post = [m, ''--'']"
    by (cases "?post") auto
  with args have "args = [m] \<or> args = [''--'', m] \<or> args = [m, ''--'']" by metis
  with cv show "m \<in> set choices \<and> (args = [m] \<or> args = [''--'', m] \<or> args = [m, ''--''])"
    by (simp add: check_value_def)
qed

lemma valid_command_line_iff:
  "valid_command_line args = (\<exists>m. parse_args args = Namespace m)"
  by (auto simp: valid_command_line_def parse_args_Namespace_iff list_ex_iff)

subsection \<open>The payload\<close>

lemma length_payload [simp]: "length (payload mode) = 65"
  by (simp add: payload_def pad_def select_data_def data_hq_def data_ll_def)

text \<open>
  Claim C1. For mode \<open>hq\<close> the payload is the bytes 03 5a 6b 03 0a 03 40 followed by 58
  zero bytes, for mode \<open>ll\<close> the bytes 03 5a 6b 03 0a 03 20 followed by 58 zero bytes;
  both are 65 bytes long.
\<close>

theorem payload_hq_ll:
  "payload ''hq'' = [0x03, 0x5a, 0x6b, 0x03, 0x0a, 0x03, 0x40] @ replicate 58 0x00 \<and>
   payload ''ll'' = [0x03, 0x5a, 0x6b, 0x03, 0x0a, 0x03, 0x20] @ replicate 58 0x00 \<and>
   length (payload ''hq'') = 65 \<and> length (payload ''ll'') = 65"
  by (simp add: payload_def pad_def select_data_def data_hq_def data_ll_def)

subsection \<open>The script, step by step\<close>

lemma pad_select_data [simp]: "pad (select_data mode) = payload mode"
  by (simp add: payload_def)

lemma cleanup_eq:
  "cleanup dev tr =
     (tr @ [DisposeResources],
      case dispose_resources dev of Inl e \<Rightarrow> Uncaught e | Inr u \<Rightarrow> Completed)"
  by (simp add: cleanup_def split: sum.split)

lemma reattach_not_needed: "reattach_driver dev i False tr = cleanup dev tr"
  by (simp add: reattach_driver_def)

lemma reattach_ok:
  "attach_kernel_driver dev i = Inr u \<Longrightarrow>
   reattach_driver dev i True tr = cleanup dev (tr @ [AttachKernelDriver i])"
  by (simp add: reattach_driver_def)

lemma reattach_driver_raises:
  "attach_kernel_driver dev i = Inl e \<Longrightarrow>
   reattach_driver dev i True tr =
     (tr @ [AttachKernelDriver i],
      if is_USBError e then SysExit ''Could not reattach kernel driver: '' (Some e) else Uncaught e)"
  by (simp add: reattach_driver_def)

lemma send_transfer_raises:
  "ctrl_transfer dev 0x21 0x09 0x203 0x00 (payload mode) = Inl e \<Longrightarrow>
   send_transfer dev i b mode tr =
     (tr @ [Print (announce mode), CtrlTransfer 0x21 0x09 0x203 0x00 (payload mode)],
      if is_USBError e then SysExit ''Failed to send control transfer: '' (Some e) else Uncaught e)"
  by (simp add: send_transfer_def)

lemma send_transfer_incomplete:
  "ctrl_transfer dev 0x21 0x09 0x203 0x00 (payload mode) = Inr n \<Longrightarrow> n \<noteq> 65 \<Longrightarrow>
   send_transfer dev i b mode tr =
     (tr @ [Print (announce mode), CtrlTransfer 0x21 0x09 0x203 0x00 (payload mode)],
      SysExit ''Failed to send control transfer: '' (Some (USBError ''Incomplete control transfer.'')))"
  by (simp add: send_transfer_def)

lemma send_transfer_ok:
  "ctrl_transfer dev 0x21 0x09 0x203 0x00 (payload mode) = Inr 65 \<Longrightarrow>
   send_transfer dev i b mode tr =
     reattach_driver dev i b
       (tr @ [Print (announce mode), CtrlTransfer 0x21 0x09 0x203 0x00 (payload mode),
              Print ''Mode switch successful.''])"
  by (simp add: send_transfer_def)

lemma detach_query_raises:
  "is_kernel_driver_active dev i = Inl e \<Longrightarrow>
   detach_driver dev i mode tr = (tr @ [IsKernelDriverActive i], Uncaught e)"
  by (simp add: detach_driver_def)

lemma detach_not_needed:
  "is_kernel_driver_active dev i = Inr False \<Longrightarrow>
   detach_driver dev i mode tr = send_transfer dev i False mode (tr @ [IsKernelDriverActive i])"
  by (simp add: detach_driver_def)

lemma detach_driver_raises:
  "is_kernel_driver_active dev i = Inr True \<Longrightarrow> detach_kernel_driver dev i = Inl e \<Longrightarrow>
   detach_driver dev i mode tr =
     (tr @ [IsKernelDriverActive i, DetachKernelDriver i],
      if is_USBError e then SysExit ''Could not detach kernel driver: '' (Some e) else Uncaught e)"
  by (simp add: detach_driver_def)

lemma detach_ok:
  "is_kernel_driver_active dev i = Inr True \<Longrightarrow> detach_kernel_driver dev i = Inr u \<Longrightarrow>
   detach_driver dev i mode tr =
     send_transfer dev i True mode (tr @ [IsKernelDriverActive i, DetachKernelDriver i])"
  by (simp add: detach_driver_def)

lemma main_not_root:
  "geteuid env \<noteq> 0 \<Longrightarrow>
   main env = ([], SysExit ''This script must be run as root. Try using 'sudo'.'' None)"
  by (simp add: main_def)

lemma main_argparse_exit:
  "geteuid env = 0 \<Longrightarrow> parse_args (argv env) = SystemExit c \<Longrightarrow> main env = ([], ArgparseExit c)"
  by (simp add: main_def)

lemma main_find_raises:
  "geteuid env = 0 \<Longrightarrow> parse_args (argv env) = Namespace mode \<Longrightarrow>
   find env 0x041e 0x3130 = Inl e \<Longrightarrow> main env = ([Find 0x041e 0x3130], Uncaught e)"
  by (simp add: main_def)

lemma main_not_found:
  "geteuid env = 0 \<Longrightarrow> parse_args (argv env) = Namespace mode \<Longrightarrow>
   find env 0x041e 0x3130 = Inr None \<Longrightarrow>
   main env =
     ([Find 0x041e 0x3130],
      SysExit ''BT-W5 device not found. Check if it is connected or permissions on /dev/bus/usb/...'' None)"
  by (simp add: main_def)

lemma main_no_configuration:
  "geteuid env = 0 \<Longrightarrow> parse_args (argv env) = Namespace mode \<Longrightarrow>
   find env 0x041e 0x3130 = Inr (Some dev) \<Longrightarrow> get_active_configuration dev = Inl e \<Longrightarrow>
   main env =
     ([Find 0x041e 0x3130, GetActiveConfiguration],
      SysExit ''Failed to retrieve the device configuration: '' (Some e))"
  by (simp add: main_def obtain_interface_def)

lemma main_no_interface:
  "geteuid env = 0 \<Longrightarrow> parse_args (argv env) = Namespace mode \<Longrightarrow>
   find env 0x041e 0x3130 = Inr (Some dev) \<Longrightarrow> get_active_configuration dev = Inr cfg \<Longrightarrow>
   first_interface cfg = Inl e \<Longrightarrow>
   main env =
     ([Find 0x041e 0x3130, GetActiveConfiguration],
      SysExit ''Failed to retrieve the device configuration: '' (Some e))"
  by (simp add: main_def obtain_interface_def)

lemma main_interface:
  "geteuid env = 0 \<Longrightarrow> parse_args (argv env) = Namespace mode \<Longrightarrow>
   find env 0x041e 0x3130 = Inr (Some dev) \<Longrightarrow> get_active_configuration dev = Inr cfg \<Longrightarrow>
   first_interface cfg = Inr i \<Longrightarrow>
   main env = detach_driver dev i mode [Find 0x041e 0x3130, GetActiveConfiguration]"
  by (simp add: main_def obtain_interface_def)

lemma main_reaches_driver_step:
  "reaches_driver_step env mode dev i \<Longrightarrow>
   main env = detach_driver dev i mode [Find 0x041e 0x3130, GetActiveConfiguration]"
  by (auto simp: reaches_driver_step_def main_interface split: sum.splits)

lemma main_reaches_transfer:
  "reaches_transfer env mode dev i detached \<Longrightarrow>
   main env = send_transfer dev i detached mode (driver_events i detached)"
  by (auto simp: reaches_transfer_def main_reaches_driver_step detach_not_needed detach_ok
        driver_events_def split: if_splits)

lemma early_paths [case_names not_root argparse find_raises not_found no_interface
    query_raises detach_raises transfer]:
  obtains
    (not_root) "geteuid env \<noteq> 0"
      "main env = ([], SysExit ''This script must be run as root. Try using 'sudo'.'' None)"
  | (argparse) c where "geteuid env = 0" "parse_args (argv env) = SystemExit c"
      "main env = ([], ArgparseExit c)"
  | (find_raises) mode e where "geteuid env = 0" "parse_args (argv env) = Namespace mode"
      "find env 0x041e 0x3130 = Inl e" "main env = ([Find 0x041e 0x3130], Uncaught e)"
  | (not_found) mode where "geteuid env = 0" "parse_args (argv env) = Namespace mode"
      "find env 0x041e 0x3130 = Inr None"
      "main env =
         ([Find 0x041e 0x3130],
          SysExit ''BT-W5 device not found. Check if it is connected or permissions on /dev/bus/usb/...'' None)"
  | (no_interface) mode dev e where "geteuid env = 0" "parse_args (argv env) = Namespace mode"
      "find env 0x041e 0x3130 = Inr (Some dev)"
      "get_active_configuration dev = Inl e \<or>
       (\<exists>cfg. get_active_configuration dev = Inr cfg \<and> first_interface cfg = Inl e)"
      "main env =
         ([Find 0x041e 0x3130, GetActiveConfiguration],
          SysExit ''Failed to retrieve the device configuration: '' (Some e))"
  | (query_raises) mode dev i e where "reaches_driver_step env mode dev i"
      "is_kernel_driver_active dev i = Inl e"
      "main env = (driver_events i False, Uncaught e)"
  | (detach_raises) mode dev i e where "reaches_driver_step env mode dev i"
      "is_kernel_driver_active dev i = Inr True" "detach_kernel_driver dev i = Inl e"
      "main env =
         (driver_events i True,
          if is_USBError e then SysExit ''Could not detach kernel driver: '' (Some e)
          else Uncaught e)"
  | (transfer) mode dev i detached where "reaches_transfer env mode dev i detached"
proof (cases "geteuid env = 0")
  case False
  then show ?thesis using not_root main_not_root by blast
next
  case root: True
  show ?thesis
  proof (cases "parse_args (argv env)")
    case (SystemExit c)
    with root show ?thesis using argparse main_argparse_exit by blast
  next
    case ns: (Namespace mode)
    show ?thesis
    proof (cases "find env 0x041e 0x3130")
      case (Inl e)
      with root ns show ?thesis using find_raises main_find_raises by blast
    next
      case found: (Inr d)
      show ?thesis
      proof (cases d)
        case None
        with root ns found show ?thesis using not_found main_not_found by blast
      next
        case (Some dev)
        with found have dev: "find env 0x041e 0x3130 = Inr (Some dev)" by simp
        show ?thesis
        proof (cases "get_active_configuration dev")
          case (Inl e)
          with root ns dev show ?thesis
            using no_interface [of mode dev e] main_no_configuration [of env mode dev e] by blast
        next
          case cfg: (Inr cfg)
          show ?thesis
          proof (cases "first_interface cfg")
            case (Inl e)
            with root ns dev cfg show ?thesis
              using no_interface [of mode dev e] main_no_interface [of env mode dev cfg e] by blast
          next
            case (Inr i)
            with root ns dev cfg have reach: "reaches_driver_step env mode dev i"
              by (simp add: reaches_driver_step_def)
            show ?thesis
            proof (cases "is_kernel_driver_active dev i")
              case (Inl e)
              with reach show ?thesis
                using query_raises [of mode dev i e]
                by (simp add: main_reaches_driver_step detach_query_raises driver_events_def)
            next
              case active: (Inr a)
              show ?thesis
              proof (cases a)
                case False
                with active reach have "reaches_transfer env mode dev i False"
                  by (simp add: reaches_transfer_def)
                then show ?thesis using transfer by blast
              next
                case True
                with active have act: "is_kernel_driver_active dev i = Inr True" by simp
                show ?thesis
                proof (cases "detach_kernel_driver dev i")
                  case (Inl e)
                  with reach act show ?thesis
                    using detach_raises [of mode dev i e]
                    by (simp add: main_reaches_driver_step detach_driver_raises driver_events_def)
                next
                  case (Inr u)
                  with act reach have "reaches_transfer env mode dev i True"
                    by (simp add: reaches_transfer_def)
                  then show ?thesis using transfer by blast
                qed
              qed
            qed
          qed
        qed
      qed
    qed
  qed
qed

lemma transfer_paths [consumes 1, case_names transfer_raises incomplete reattach_raises released]:
  assumes "reaches_transfer env mode dev i detached"
  obtains
    (transfer_raises) e where "ctrl_transfer dev 0x21 0x09 0x203 0x00 (payload mode) = Inl e"
      "main env =
         (driver_events i detached @ transfer_events mode,
          if is_USBError e then SysExit ''Failed to send control transfer: '' (Some e)
          else Uncaught e)"
  | (incomplete) n where "ctrl_transfer dev 0x21 0x09 0x203 0x00 (payload mode) = Inr n" "n \<noteq> 65"
      "main env =
         (driver_events i detached @ transfer_events mode,
          SysExit ''Failed to send control transfer: ''
            (Some (USBError ''Incomplete control transfer.'')))"
  | (reattach_raises) e where "ctrl_transfer dev 0x21 0x09 0x203 0x00 (payload mode) = Inr 65"
      "detached" "attach_kernel_driver dev i = Inl e"
      "main env =
         (driver_events i detached @ transfer_events mode @
            [Print ''Mode switch successful.'', AttachKernelDriver i],
          if is_USBError e then SysExit ''Could not reattach kernel driver: '' (Some e)
          else Uncaught e)"
  | (released) "ctrl_transfer dev 0x21 0x09 0x203 0x00 (payload mode) = Inr 65"
      "detached \<longrightarrow> attach_kernel_driver dev i = Inr ()"
      "main env =
         (driver_events i detached @ transfer_events mode @ [Print ''Mode switch successful.''] @
            (if detached then [AttachKernelDriver i] else []) @ [DisposeResources],
          case dispose_resources dev of Inl e \<Rightarrow> Uncaught e | Inr u \<Rightarrow> Completed)"
proof -
  note m = main_reaches_transfer [OF assms]
  show ?thesis
  proof (cases "ctrl_transfer dev 0x21 0x09 0x203 0x00 (payload mode)")
    case (Inl e)
    then show ?thesis
      using transfer_raises [of e] by (simp add: m send_transfer_raises transfer_events_def)
  next
    case res: (Inr n)
    show ?thesis
    proof (cases "n = 65")
      case False
      with res show ?thesis
        using incomplete [of n] by (simp add: m send_transfer_incomplete transfer_events_def)
    next
      case True
      with res have ok: "ctrl_transfer dev 0x21 0x09 0x203 0x00 (payload mode) = Inr 65" by simp
      show ?thesis
      proof (cases detached)
        case False
        with ok show ?thesis
          using released
          by (simp add: m send_transfer_ok reattach_not_needed cleanup_eq transfer_events_def)
      next
        case det: True
        show ?thesis
        proof (cases "attach_kernel_driver dev i")
          case (Inl e)
          with ok det show ?thesis
            using reattach_raises [of e]
            by (simp add: m send_transfer_ok reattach_driver_raises transfer_events_def)
        next
          case (Inr u)
          with ok det show ?thesis
            using released
            by (simp add: m send_transfer_ok reattach_ok cleanup_eq transfer_events_def)
        qed
      qed
    qed
  qed
qed

subsection \<open>The runs of the script\<close>

lemma sample_env_simps [simp]:
  "geteuid (sample_env uid args dev) = uid"
  "argv (sample_env uid args dev) = args"
  "find (sample_env uid args dev) 0x041e 0x3130 = Inr dev"
  by (simp_all add: sample_env_def)

lemma sample_device_simps [simp]:
  "get_active_configuration (sample_device a det x att) = Inr [[sample_interface]]"
  "is_kernel_driver_active (sample_device a det x att) i = Inr a"
  "detach_kernel_driver (sample_device a det x att) i = det"
  "ctrl_transfer (sample_device a det x att) rt rq v ix d = x d"
  "attach_kernel_driver (sample_device a det x att) i = att"
  "dispose_resources (sample_device a det x att) = Inr ()"
  by (simp_all add: sample_device_def)

lemma first_interface_sample [simp]: "first_interface [[sample_interface]] = Inr 3"
  by (simp add: first_interface_def sample_interface_def)

lemma reaches_transfer_sample:
  "parse_args args = Namespace mode \<Longrightarrow> a \<longrightarrow> det = Inr () \<Longrightarrow>
   reaches_transfer (sample_env 0 args (Some (sample_device a det x att))) mode
     (sample_device a det x att) 3 a"
  by (simp add: reaches_transfer_def reaches_driver_step_def)

lemma is_USBError_iff: "is_USBError e = (\<exists>s. e = USBError s)"
  by (cases e) simp_all

lemmas event_defs = trace_def exit_of_def transfers_def is_ctrl_transfer_def driver_events_def
  transfer_events_def

text \<open>
  Claim C2. A run issues at most one control transfer; the one it issues has request type
  0x21, request 0x09, value 0x203, index 0x00 and carries the 65-byte payload of the mode
  given on the command line; it is issued in every run that reaches the transfer.
\<close>

theorem control_transfer_parameters:
  "(transfers env = [] \<or>
    (\<exists>mode. parse_args (argv env) = Namespace mode \<and> mode \<in> set choices \<and>
       transfers env = [CtrlTransfer 0x21 0x09 0x203 0x00 (payload mode)] \<and>
       length (payload mode) = 65)) \<and>
   (reaches_transfer env mode dev i detached \<longrightarrow>
      transfers env = [CtrlTransfer 0x21 0x09 0x203 0x00 (payload mode)])"
proof -
  have reach: "transfers env = [CtrlTransfer 0x21 0x09 0x203 0x00 (payload m)]"
    if "reaches_transfer env m d j b" for m d j b
    using that by (cases rule: transfer_paths) (simp_all add: event_defs)
  have "transfers env = [] \<or>
    (\<exists>mode. parse_args (argv env) = Namespace mode \<and> mode \<in> set choices \<and>
       transfers env = [CtrlTransfer 0x21 0x09 0x203 0x00 (payload mode)] \<and>
       length (payload mode) = 65)"
  proof (cases env rule: early_paths)
    case (transfer m d j b)
    then have ns: "parse_args (argv env) = Namespace m"
      by (simp add: reaches_transfer_def reaches_driver_step_def)
    then have "m \<in> set choices" using parse_args_Namespace by blast
    with ns reach [OF transfer] show ?thesis by simp
  qed (simp_all add: event_defs)
  with reach show ?thesis by blast
qed

text \<open>A run for mode \<open>ll\<close> on a device without a kernel driver that accepts the transfer.\<close>

theorem control_transfer_parameters_witness:
  "transfers (sample_env 0 [''ll''] (Some (sample_device False (Inr ()) accepts_all (Inr ())))) =
     [CtrlTransfer 0x21 0x09 0x203 0x00 (payload ''ll'')]"
  using control_transfer_parameters
    [of "sample_env 0 [''ll''] (Some (sample_device False (Inr ()) accepts_all (Inr ())))"
        "''ll''" "sample_device False (Inr ()) accepts_all (Inr ())" 3 False]
    reaches_transfer_sample [of "[''ll'']" "''ll''" False "Inr ()" accepts_all "Inr ()"]
  by (simp add: parse_args_modes)

text \<open>
  Claim C3. In a run that reaches the transfer, the program ends with the message
  "Failed to send control transfer" exactly when \<open>ctrl_transfer\<close> raises a
  \<open>USBError\<close> or returns a length other than 65; the success message is printed exactly
  when it returns 65; and whenever it does not return 65 the run ends at the transfer with
  a non-zero exit status.
\<close>

theorem transfer_failure_iff:
  assumes "reaches_transfer env mode dev i detached"
  shows
    "((\<exists>e. exit_of env = SysExit ''Failed to send control transfer: '' (Some e)) \<longleftrightarrow>
        (\<exists>s. ctrl_transfer dev 0x21 0x09 0x203 0x00 (payload mode) = Inl (USBError s)) \<or>
        (\<exists>n. ctrl_transfer dev 0x21 0x09 0x203 0x00 (payload mode) = Inr n \<and> n \<noteq> 65)) \<and>
     (Print ''Mode switch successful.'' \<in> set (trace env) \<longleftrightarrow>
        ctrl_transfer dev 0x21 0x09 0x203 0x00 (payload mode) = Inr 65) \<and>
     (ctrl_transfer dev 0x21 0x09 0x203 0x00 (payload mode) \<noteq> Inr 65 \<longrightarrow>
        exit_code (exit_of env) \<noteq> 0 \<and>
        last (trace env) = CtrlTransfer 0x21 0x09 0x203 0x00 (payload mode))"
  using assms
proof (cases rule: transfer_paths)
  case (transfer_raises e)
  then show ?thesis
    by (cases e) (simp_all add: event_defs announce_def)
next
  case (incomplete n)
  then show ?thesis by (simp add: event_defs announce_def)
next
  case (reattach_raises e)
  then show ?thesis by (cases e) (simp_all add: event_defs)
next
  case released
  then show ?thesis by (simp add: event_defs split: sum.split)
qed

text \<open>A device that reports 64 bytes transferred, without raising.\<close>

theorem transfer_failure_iff_witness:
  "exit_of (sample_env 0 [''hq''] (Some (sample_device False (Inr ()) short_write (Inr ())))) =
     SysExit ''Failed to send control transfer: '' (Some (USBError ''Incomplete control transfer.'')) \<and>
   Print ''Mode switch successful.'' \<notin>
     set (trace (sample_env 0 [''hq''] (Some (sample_device False (Inr ()) short_write (Inr ())))))"
proof -
  let ?dev = "sample_device False (Inr ()) short_write (Inr ())"
  let ?env = "sample_env 0 [''hq''] (Some ?dev)"
  have r: "reaches_transfer ?env ''hq'' ?dev 3 False"
    by (rule reaches_transfer_sample) (simp_all add: parse_args_modes)
  have ex: "exit_of ?env =
      SysExit ''Failed to send control transfer: '' (Some (USBError ''Incomplete control transfer.''))"
    using r by (simp add: exit_of_def main_reaches_transfer send_transfer_incomplete short_write_def)
  from transfer_failure_iff [OF r] ex show ?thesis
    by (simp add: short_write_def)
qed

lemma steps_succeed_driver_step:
  "reaches_driver_step env mode dev i \<Longrightarrow>
   steps_succeed env =
     (driver_steps_succeed dev i \<and> ctrl_transfer dev 0x21 0x09 0x203 0x00 (payload mode) = Inr 65)"
  by (auto simp: steps_succeed_def reaches_driver_step_def split: sum.splits)

lemma steps_succeed_transfer:
  "reaches_transfer env mode dev i detached \<Longrightarrow>
   steps_succeed env =
     ((detached \<longrightarrow> attach_kernel_driver dev i = Inr ()) \<and>
      ctrl_transfer dev 0x21 0x09 0x203 0x00 (payload mode) = Inr 65)"
  by (auto simp: reaches_transfer_def steps_succeed_driver_step driver_steps_succeed_def
        split: if_splits)

lemma release_succeeds_found:
  "find env 0x041e 0x3130 = Inr (Some dev) \<Longrightarrow>
   release_succeeds env = (dispose_resources dev = Inr ())"
  by (simp add: release_succeeds_def)

lemma reaches_transfer_found:
  "reaches_transfer env mode dev i detached \<Longrightarrow> find env 0x041e 0x3130 = Inr (Some dev)"
  by (simp add: reaches_transfer_def reaches_driver_step_def)

text \<open>
  Claim C4, as amended. \<open>usb.util.dispose_resources\<close> is called exactly in the runs in
  which every step before it succeeds, and then as the last action; no run that ends in
  \<open>sys.exit\<close> or inside the argument parser calls it.
\<close>

theorem release_only_on_success:
  "(DisposeResources \<in> set (trace env) \<longleftrightarrow> steps_succeed env) \<and>
   (DisposeResources \<in> set (trace env) \<longrightarrow> last (trace env) = DisposeResources) \<and>
   (DisposeResources \<in> set (trace env) \<longrightarrow>
      (\<forall>msg e. exit_of env \<noteq> SysExit msg e) \<and> (\<forall>c. exit_of env \<noteq> ArgparseExit c))"
proof (cases env rule: early_paths)
  case (no_interface mode dev e)
  then show ?thesis by (auto simp: event_defs steps_succeed_def)
next
  case (query_raises mode dev i e)
  then show ?thesis
    by (simp add: event_defs steps_succeed_driver_step driver_steps_succeed_def)
next
  case (detach_raises mode dev i e)
  then show ?thesis
    by (simp add: event_defs steps_succeed_driver_step driver_steps_succeed_def)
next
  case (transfer mode dev i detached)
  note ss = steps_succeed_transfer [OF transfer]
  from transfer show ?thesis
  proof (cases rule: transfer_paths)
    case released
    then show ?thesis by (auto simp: event_defs ss split: sum.splits)
  qed (simp_all add: event_defs ss)
qed (simp_all add: event_defs steps_succeed_def)

text \<open>A run in which the driver is detached, the transfer accepted and the driver reattached.\<close>

theorem release_only_on_success_witness:
  "DisposeResources \<in>
     set (trace (sample_env 0 [''hq''] (Some (sample_device True (Inr ()) accepts_all (Inr ()))))) \<and>
   steps_succeed (sample_env 0 [''hq''] (Some (sample_device True (Inr ()) accepts_all (Inr ())))) \<and>
   last (trace (sample_env 0 [''hq''] (Some (sample_device True (Inr ()) accepts_all (Inr ()))))) =
     DisposeResources"
proof -
  let ?dev = "sample_device True (Inr ()) accepts_all (Inr ())"
  let ?env = "sample_env 0 [''hq''] (Some ?dev)"
  have r: "reaches_transfer ?env ''hq'' ?dev 3 True"
    by (rule reaches_transfer_sample) (simp_all add: parse_args_modes)
  have "steps_succeed ?env"
    by (simp add: steps_succeed_transfer [OF r] accepts_all_def)
  with release_only_on_success [of ?env] show ?thesis by simp
qed

text \<open>
  Claim C4 as stated fails: with the device found and its driver detached, a transfer that
  times out ends the run without a call of \<open>dispose_resources\<close>.
\<close>

theorem release_skipped_on_transfer_error:
  "find (sample_env 0 [''hq''] (Some (sample_device True (Inr ()) times_out (Inr ())))) 0x041e 0x3130 =
     Inr (Some (sample_device True (Inr ()) times_out (Inr ()))) \<and>
   trace (sample_env 0 [''hq''] (Some (sample_device True (Inr ()) times_out (Inr ())))) =
     [Find 0x041e 0x3130, GetActiveConfiguration, IsKernelDriverActive 3, DetachKernelDriver 3,
      Print ''Switching to AptX Adaptive High Quality mode...'',
      CtrlTransfer 0x21 0x09 0x203 0x00 (payload ''hq'')] \<and>
   DisposeResources \<notin>
     set (trace (sample_env 0 [''hq''] (Some (sample_device True (Inr ()) times_out (Inr ()))))) \<and>
   exit_code (exit_of (sample_env 0 [''hq''] (Some (sample_device True (Inr ()) times_out (Inr ()))))) = 1"
proof -
  let ?dev = "sample_device True (Inr ()) times_out (Inr ())"
  let ?env = "sample_env 0 [''hq''] (Some ?dev)"
  have r: "reaches_transfer ?env ''hq'' ?dev 3 True"
    by (rule reaches_transfer_sample) (simp_all add: parse_args_modes)
  have "main ?env =
      ([Find 0x041e 0x3130, GetActiveConfiguration, IsKernelDriverActive 3, DetachKernelDriver 3,
        Print ''Switching to AptX Adaptive High Quality mode...'',
        CtrlTransfer 0x21 0x09 0x203 0x00 (payload ''hq'')],
       SysExit ''Failed to send control transfer: '' (Some (USBError ''Operation timed out'')))"
    by (simp add: main_reaches_transfer [OF r] send_transfer_raises times_out_def
          driver_events_def announce_def)
  then show ?thesis by (simp add: trace_def exit_of_def)
qed

text \<open>
  Claim C5. The checks come in the order privilege, mode argument, device enumeration,
  configuration and interface retrieval, kernel-driver detach, and a failed check ends the
  run at once: without root nothing is attempted, whatever the command line; after a parser
  exit nothing is attempted; a device not found leaves the search as the only event; a
  failed retrieval leaves no driver operation; a failed detach leaves no control transfer.
  A control transfer is issued only in a run that passed all of these checks.
\<close>

theorem precondition_order:
  "(geteuid env \<noteq> 0 \<longrightarrow>
      main env = ([], SysExit ''This script must be run as root. Try using 'sudo'.'' None)) \<and>
   (geteuid env = 0 \<and> parse_args (argv env) = SystemExit c \<longrightarrow>
      main env = ([], ArgparseExit c)) \<and>
   (geteuid env = 0 \<and> parse_args (argv env) = Namespace mode \<and>
    find env 0x041e 0x3130 = Inr None \<longrightarrow>
      main env =
        ([Find 0x041e 0x3130],
         SysExit ''BT-W5 device not found. Check if it is connected or permissions on /dev/bus/usb/...'' None)) \<and>
   (geteuid env = 0 \<and> parse_args (argv env) = Namespace mode \<and>
    find env 0x041e 0x3130 = Inr (Some dev) \<and>
    (get_active_configuration dev = Inl e \<or>
     get_active_configuration dev = Inr cfg \<and> first_interface cfg = Inl e) \<longrightarrow>
      main env =
        ([Find 0x041e 0x3130, GetActiveConfiguration],
         SysExit ''Failed to retrieve the device configuration: '' (Some e))) \<and>
   (geteuid env = 0 \<and> parse_args (argv env) = Namespace mode \<and>
    find env 0x041e 0x3130 = Inr (Some dev) \<and>
    get_active_configuration dev = Inr cfg \<and> first_interface cfg = Inr i \<and>
    is_kernel_driver_active dev i = Inr True \<and> detach_kernel_driver dev i = Inl (USBError s) \<longrightarrow>
      main env =
        ([Find 0x041e 0x3130, GetActiveConfiguration, IsKernelDriverActive i, DetachKernelDriver i],
         SysExit ''Could not detach kernel driver: '' (Some (USBError s)))) \<and>
   (transfers env \<noteq> [] \<longrightarrow>
      (\<exists>m d j detached. reaches_transfer env m d j detached))"
proof -
  have last: "transfers env \<noteq> [] \<longrightarrow> (\<exists>m d j detached. reaches_transfer env m d j detached)"
  proof (cases env rule: early_paths)
    case (transfer m d j b)
    then show ?thesis by blast
  qed (simp_all add: event_defs)
  have detach: "main env =
        ([Find 0x041e 0x3130, GetActiveConfiguration, IsKernelDriverActive i, DetachKernelDriver i],
         SysExit ''Could not detach kernel driver: '' (Some (USBError s)))"
    if "geteuid env = 0" "parse_args (argv env) = Namespace mode"
      "find env 0x041e 0x3130 = Inr (Some dev)"
      "get_active_configuration dev = Inr cfg" "first_interface cfg = Inr i"
      "is_kernel_driver_active dev i = Inr True" "detach_kernel_driver dev i = Inl (USBError s)"
    using that by (simp add: main_interface detach_driver_raises)
  show ?thesis
    using last detach
    by (auto simp: main_not_root main_argparse_exit main_not_found main_no_configuration
          main_no_interface)
qed

text \<open>One run for each failing check.\<close>

lemma parse_args_xx: "parse_args [''xx''] = SystemExit 2"
  by (simp add: parse_args_def parse_optional_def parse_rest_def check_value_def choices_def)

theorem precondition_order_witness:
  "main (sample_env 1000 [''hq''] None) =
     ([], SysExit ''This script must be run as root. Try using 'sudo'.'' None) \<and>
   main (sample_env 0 [''xx''] None) = ([], ArgparseExit 2) \<and>
   main (sample_env 0 [''hq''] None) =
     ([Find 0x041e 0x3130],
      SysExit ''BT-W5 device not found. Check if it is connected or permissions on /dev/bus/usb/...'' None) \<and>
   main (sample_env 0 [''hq''] (Some (sample_device True (Inr ()) accepts_all (Inr ())
           \<lparr>get_active_configuration := Inr []\<rparr>))) =
     ([Find 0x041e 0x3130, GetActiveConfiguration],
      SysExit ''Failed to retrieve the device configuration: '' (Some IndexError)) \<and>
   main (sample_env 0 [''hq'']
           (Some (sample_device True (Inl (USBError ''Resource busy'')) accepts_all (Inr ())))) =
     ([Find 0x041e 0x3130, GetActiveConfiguration, IsKernelDriverActive 3, DetachKernelDriver 3],
      SysExit ''Could not detach kernel driver: '' (Some (USBError ''Resource busy'')))"
proof -
  let ?nocfg = "sample_device True (Inr ()) accepts_all (Inr ()) \<lparr>get_active_configuration := Inr []\<rparr>"
  let ?busy = "sample_device True (Inl (USBError ''Resource busy'')) accepts_all (Inr ())"
  note a = precondition_order [of "sample_env 1000 [''hq''] None"]
  note b = precondition_order [of "sample_env 0 [''xx''] None" 2]
  note c = precondition_order [of "sample_env 0 [''hq''] None" _ "''hq''"]
  note d = precondition_order [of "sample_env 0 [''hq''] (Some ?nocfg)" _ "''hq''" ?nocfg
             IndexError "[]"]
  note e = precondition_order [of "sample_env 0 [''hq''] (Some ?busy)" _ "''hq''" ?busy _
             "[[sample_interface]]" 3 "''Resource busy''"]
  have "first_interface [] = Inl IndexError" by (simp add: first_interface_def)
  with a b c d e show ?thesis
    by (simp add: parse_args_modes parse_args_xx)
qed

text \<open>
  Claim C6. A reattach of the kernel driver is attempted only for an interface whose
  driver the run detached, and only after the transfer succeeded; if no driver was active,
  neither detach nor reattach is attempted; if the driver was detached and the transfer
  succeeds, the reattach follows the success message, and a \<open>USBError\<close> from it ends
  the program with the message "Could not reattach kernel driver" and a non-zero status.
\<close>

theorem reattach_iff_detached:
  "(AttachKernelDriver j \<in> set (trace env) \<longrightarrow>
      DetachKernelDriver j \<in> set (trace env) \<and>
      Print ''Mode switch successful.'' \<in> set (trace env)) \<and>
   (reaches_driver_step env mode dev i \<and> is_kernel_driver_active dev i = Inr False \<longrightarrow>
      AttachKernelDriver j \<notin> set (trace env) \<and> DetachKernelDriver j \<notin> set (trace env)) \<and>
   (reaches_driver_step env mode dev i \<and> is_kernel_driver_active dev i = Inr True \<and>
    detach_kernel_driver dev i = Inr () \<and>
    ctrl_transfer dev 0x21 0x09 0x203 0x00 (payload mode) = Inr 65 \<longrightarrow>
      (\<exists>rest. trace env =
         [Find 0x041e 0x3130, GetActiveConfiguration, IsKernelDriverActive i, DetachKernelDriver i,
          Print (announce mode), CtrlTransfer 0x21 0x09 0x203 0x00 (payload mode),
          Print ''Mode switch successful.'', AttachKernelDriver i] @ rest) \<and>
      (attach_kernel_driver dev i = Inl (USBError s) \<longrightarrow>
         exit_of env = SysExit ''Could not reattach kernel driver: '' (Some (USBError s)) \<and>
         exit_code (exit_of env) \<noteq> 0))"
proof -
  have one: "AttachKernelDriver j \<in> set (trace env) \<longrightarrow>
      DetachKernelDriver j \<in> set (trace env) \<and>
      Print ''Mode switch successful.'' \<in> set (trace env)"
  proof (cases env rule: early_paths)
    case (transfer m d k b)
    then show ?thesis
      by (cases rule: transfer_paths) (auto simp: event_defs split: if_splits)
  qed (simp_all add: event_defs)
  have two: "AttachKernelDriver j \<notin> set (trace env) \<and> DetachKernelDriver j \<notin> set (trace env)"
    if "reaches_driver_step env mode dev i" "is_kernel_driver_active dev i = Inr False"
  proof -
    from that have "reaches_transfer env mode dev i False"
      by (simp add: reaches_transfer_def)
    then show ?thesis
      by (cases rule: transfer_paths) (simp_all add: event_defs)
  qed
  have three: "(\<exists>rest. trace env =
         [Find 0x041e 0x3130, GetActiveConfiguration, IsKernelDriverActive i, DetachKernelDriver i,
          Print (announce mode), CtrlTransfer 0x21 0x09 0x203 0x00 (payload mode),
          Print ''Mode switch successful.'', AttachKernelDriver i] @ rest) \<and>
      (attach_kernel_driver dev i = Inl (USBError s) \<longrightarrow>
         exit_of env = SysExit ''Could not reattach kernel driver: '' (Some (USBError s)) \<and>
         exit_code (exit_of env) \<noteq> 0)"
    if "reaches_driver_step env mode dev i" "is_kernel_driver_active dev i = Inr True"
      "detach_kernel_driver dev i = Inr ()"
      "ctrl_transfer dev 0x21 0x09 0x203 0x00 (payload mode) = Inr 65"
  proof -
    from that have "reaches_transfer env mode dev i True"
      by (simp add: reaches_transfer_def)
    then show ?thesis
      using that(4) by (cases rule: transfer_paths) (simp_all add: event_defs)
  qed
  from one two three show ?thesis by blast
qed

text \<open>A device without a kernel driver, and one whose driver cannot be reattached.\<close>

lemma reaches_driver_step_sample:
  "parse_args args = Namespace mode \<Longrightarrow>
   reaches_driver_step (sample_env 0 args (Some (sample_device a det x att))) mode
     (sample_device a det x att) 3"
  by (simp add: reaches_driver_step_def)

theorem reattach_iff_detached_witness:
  "AttachKernelDriver 3 \<notin>
     set (trace (sample_env 0 [''hq''] (Some (sample_device False (Inr ()) accepts_all (Inr ()))))) \<and>
   AttachKernelDriver 3 \<in>
     set (trace (sample_env 0 [''hq'']
       (Some (sample_device True (Inr ()) accepts_all (Inl (USBError ''Resource busy'')))))) \<and>
   DetachKernelDriver 3 \<in>
     set (trace (sample_env 0 [''hq'']
       (Some (sample_device True (Inr ()) accepts_all (Inl (USBError ''Resource busy'')))))) \<and>
   exit_of (sample_env 0 [''hq'']
       (Some (sample_device True (Inr ()) accepts_all (Inl (USBError ''Resource busy''))))) =
     SysExit ''Could not reattach kernel driver: '' (Some (USBError ''Resource busy''))"
proof -
  let ?free = "sample_device False (Inr ()) accepts_all (Inr ())"
  let ?busy = "sample_device True (Inr ()) accepts_all (Inl (USBError ''Resource busy''))"
  have f: "reaches_driver_step (sample_env 0 [''hq''] (Some ?free)) ''hq'' ?free 3"
    by (rule reaches_driver_step_sample) (simp add: parse_args_modes)
  have b: "reaches_driver_step (sample_env 0 [''hq''] (Some ?busy)) ''hq'' ?busy 3"
    by (rule reaches_driver_step_sample) (simp add: parse_args_modes)
  note one = reattach_iff_detached [of 3 "sample_env 0 [''hq''] (Some ?free)" "''hq''" ?free 3]
  note two = reattach_iff_detached
    [of 3 "sample_env 0 [''hq''] (Some ?busy)" "''hq''" ?busy 3 "''Resource busy''"]
  from one f have "AttachKernelDriver 3 \<notin> set (trace (sample_env 0 [''hq''] (Some ?free)))"
    by simp
  moreover from two b obtain rest where
    "trace (sample_env 0 [''hq''] (Some ?busy)) =
       [Find 0x041e 0x3130, GetActiveConfiguration, IsKernelDriverActive 3, DetachKernelDriver 3,
        Print (announce ''hq''), CtrlTransfer 0x21 0x09 0x203 0x00 (payload ''hq''),
        Print ''Mode switch successful.'', AttachKernelDriver 3] @ rest"
    and "exit_of (sample_env 0 [''hq''] (Some ?busy)) =
       SysExit ''Could not reattach kernel driver: '' (Some (USBError ''Resource busy''))"
    by (auto simp: accepts_all_def)
  ultimately show ?thesis by simp
qed

text \<open>
  Claim C9. If the kernel driver was detached and the control transfer then fails (an
  exception or a length other than 65), the run ends at the transfer: no reattach, no
  release of the device, a non-zero exit status.
\<close>

theorem no_reattach_after_failed_transfer:
  assumes "reaches_driver_step env mode dev i"
    and "is_kernel_driver_active dev i = Inr True"
    and "detach_kernel_driver dev i = Inr ()"
    and "ctrl_transfer dev 0x21 0x09 0x203 0x00 (payload mode) \<noteq> Inr 65"
  shows
    "trace env =
       [Find 0x041e 0x3130, GetActiveConfiguration, IsKernelDriverActive i, DetachKernelDriver i,
        Print (announce mode), CtrlTransfer 0x21 0x09 0x203 0x00 (payload mode)] \<and>
     AttachKernelDriver i \<notin> set (trace env) \<and>
     DisposeResources \<notin> set (trace env) \<and>
     exit_code (exit_of env) \<noteq> 0"
proof -
  from assms have "reaches_transfer env mode dev i True"
    by (simp add: reaches_transfer_def)
  then show ?thesis
    using assms(4) by (cases rule: transfer_paths) (simp_all add: event_defs)
qed

text \<open>A device with an active driver that reports 64 bytes transferred.\<close>

theorem no_reattach_after_failed_transfer_witness:
  "trace (sample_env 0 [''ll''] (Some (sample_device True (Inr ()) short_write (Inr ())))) =
     [Find 0x041e 0x3130, GetActiveConfiguration, IsKernelDriverActive 3, DetachKernelDriver 3,
      Print (announce ''ll''), CtrlTransfer 0x21 0x09 0x203 0x00 (payload ''ll'')] \<and>
   exit_code (exit_of (sample_env 0 [''ll''] (Some (sample_device True (Inr ()) short_write (Inr ()))))) \<noteq> 0"
proof -
  let ?dev = "sample_device True (Inr ()) short_write (Inr ())"
  have "reaches_driver_step (sample_env 0 [''ll''] (Some ?dev)) ''ll'' ?dev 3"
    by (rule reaches_driver_step_sample) (simp add: parse_args_modes)
  from no_reattach_after_failed_transfer [OF this] show ?thesis
    by (simp add: short_write_def)
qed

text \<open>
  Claim C10. If the transfer succeeds and the reattach then raises, the program exits with
  a non-zero status; the one control transfer has been sent and the success message
  printed, and nothing follows the failed reattach: no second transfer undoes the first.
\<close>

theorem reattach_failure_after_transfer:
  assumes "reaches_driver_step env mode dev i"
    and "is_kernel_driver_active dev i = Inr True"
    and "detach_kernel_driver dev i = Inr ()"
    and "ctrl_transfer dev 0x21 0x09 0x203 0x00 (payload mode) = Inr 65"
    and "attach_kernel_driver dev i = Inl e"
  shows
    "trace env =
       [Find 0x041e 0x3130, GetActiveConfiguration, IsKernelDriverActive i, DetachKernelDriver i,
        Print (announce mode), CtrlTransfer 0x21 0x09 0x203 0x00 (payload mode),
        Print ''Mode switch successful.'', AttachKernelDriver i] \<and>
     transfers env = [CtrlTransfer 0x21 0x09 0x203 0x00 (payload mode)] \<and>
     exit_code (exit_of env) \<noteq> 0"
proof -
  from assms have "reaches_transfer env mode dev i True"
    by (simp add: reaches_transfer_def)
  then show ?thesis
    using assms(4,5) by (cases rule: transfer_paths) (simp_all add: event_defs)
qed

text \<open>A device that accepts the transfer and then refuses the reattach.\<close>

theorem reattach_failure_after_transfer_witness:
  "trace (sample_env 0 [''hq'']
      (Some (sample_device True (Inr ()) accepts_all (Inl (USBError ''No such device''))))) =
     [Find 0x041e 0x3130, GetActiveConfiguration, IsKernelDriverActive 3, DetachKernelDriver 3,
      Print (announce ''hq''), CtrlTransfer 0x21 0x09 0x203 0x00 (payload ''hq''),
      Print ''Mode switch successful.'', AttachKernelDriver 3] \<and>
   exit_code (exit_of (sample_env 0 [''hq'']
      (Some (sample_device True (Inr ()) accepts_all (Inl (USBError ''No such device'')))))) \<noteq> 0"
proof -
  let ?dev = "sample_device True (Inr ()) accepts_all (Inl (USBError ''No such device''))"
  have "reaches_driver_step (sample_env 0 [''hq''] (Some ?dev)) ''hq'' ?dev 3"
    by (rule reaches_driver_step_sample) (simp add: parse_args_modes)
  from reattach_failure_after_transfer [OF this, of "USBError ''No such device''"] show ?thesis
    by (simp add: accepts_all_def)
qed

text \<open>
  Claim C7, as amended. If no string of the command line is \<open>hq\<close> or \<open>ll\<close> (in
  particular for one token other than these two, and for no token at all), the run has
  no event: no device enumeration, no device access. With root privilege the argument
  parser ends it, with the usage error status 2, or with status 0 after the help; the help
  needs a string that begins with \<open>-h\<close> or \<open>--h\<close>.
\<close>

theorem invalid_mode_no_device_access:
  assumes "''hq'' \<notin> set (argv env)" and "''ll'' \<notin> set (argv env)"
  shows
    "trace env = [] \<and>
     (geteuid env \<noteq> 0 \<longrightarrow>
        exit_of env = SysExit ''This script must be run as root. Try using 'sudo'.'' None) \<and>
     (geteuid env = 0 \<longrightarrow>
        exit_of env = ArgparseExit 2 \<or>
        (exit_of env = ArgparseExit 0 \<and>
         (\<exists>s\<in>set (argv env). prefix ''-h'' s \<or> prefix ''--h'' s)))"
proof (cases "geteuid env = 0")
  case False
  then show ?thesis by (simp add: trace_def exit_of_def main_not_root)
next
  case True
  from assms have "parse_args (argv env) \<noteq> Namespace m" for m
    using parse_args_Namespace [of "argv env" m] by (auto simp: choices_def)
  then obtain c where c: "parse_args (argv env) = SystemExit c"
    by (cases "parse_args (argv env)") auto
  from parse_args_exit [OF c] c True show ?thesis
    by (auto simp: trace_def exit_of_def main_argparse_exit)
qed

text \<open>An unknown mode, and no mode at all.\<close>

theorem invalid_mode_no_device_access_witness:
  "trace (sample_env 0 [''fast''] (Some (sample_device False (Inr ()) accepts_all (Inr ())))) = [] \<and>
   exit_of (sample_env 0 [''fast''] (Some (sample_device False (Inr ()) accepts_all (Inr ())))) =
     ArgparseExit 2 \<and>
   trace (sample_env 0 [] (Some (sample_device False (Inr ()) accepts_all (Inr ())))) = [] \<and>
   exit_of (sample_env 0 [] (Some (sample_device False (Inr ()) accepts_all (Inr ())))) =
     ArgparseExit 2"
  using invalid_mode_no_device_access
      [of "sample_env 0 [''fast''] (Some (sample_device False (Inr ()) accepts_all (Inr ())))"]
    invalid_mode_no_device_access
      [of "sample_env 0 [] (Some (sample_device False (Inr ()) accepts_all (Inr ())))"]
  by simp

text \<open>
  Claim C7 as stated fails: the token \<open>-h\<close> is neither \<open>hq\<close> nor \<open>ll\<close>, and the
  program does not fail usage validation; it prints the help and exits with status 0.
\<close>

theorem short_help_exits_zero:
  "''-h'' \<noteq> ''hq'' \<and> ''-h'' \<noteq> ''ll'' \<and>
   main (sample_env 0 [''-h''] (Some (sample_device False (Inr ()) accepts_all (Inr ())))) =
     ([], ArgparseExit 0) \<and>
   exit_code (exit_of (sample_env 0 [''-h''] (Some (sample_device False (Inr ()) accepts_all (Inr ()))))) = 0"
  by (simp add: exit_of_def main_argparse_exit parse_args_help)

text \<open>
  Claim C8, as amended. The exit status is 0 exactly when the whole sequence succeeds or,
  under root, the command line requests the help with \<open>-h\<close> or \<open>--help\<close>; it is 2
  exactly for a usage error, a command line under root that neither is valid nor requests
  the help; and it is 1 in every other run, so non-zero for every failure.
\<close>

theorem exit_code_zero_iff:
  "((exit_code (exit_of env) = 0) =
      (whole_sequence_succeeds env \<or> (geteuid env = 0 \<and> requests_help (argv env)))) \<and>
   ((exit_code (exit_of env) = 2) =
      (geteuid env = 0 \<and> \<not> valid_command_line (argv env) \<and> \<not> requests_help (argv env))) \<and>
   (exit_code (exit_of env) = 0 \<or> exit_code (exit_of env) = 1 \<or> exit_code (exit_of env) = 2)"
proof -
  note cl = parse_args_help_iff [symmetric] valid_command_line_iff
  show ?thesis
  proof (cases env rule: early_paths)
    case (argparse c)
    from parse_args_exit [OF argparse(2)] argparse show ?thesis
      by (auto simp: exit_of_def whole_sequence_succeeds_def steps_succeed_def cl)
  next
    case (no_interface mode dev e)
    then show ?thesis
      by (auto simp: exit_of_def whole_sequence_succeeds_def steps_succeed_def cl)
  next
    case (query_raises mode dev i e)
    note ss = steps_succeed_driver_step [OF query_raises(1)]
    from query_raises(1) have ns: "parse_args (argv env) = Namespace mode" and "geteuid env = 0"
      by (simp_all add: reaches_driver_step_def)
    with query_raises show ?thesis
      by (simp add: exit_of_def whole_sequence_succeeds_def ss cl driver_steps_succeed_def)
  next
    case (detach_raises mode dev i e)
    note ss = steps_succeed_driver_step [OF detach_raises(1)]
    from detach_raises(1) have ns: "parse_args (argv env) = Namespace mode" and "geteuid env = 0"
      by (simp_all add: reaches_driver_step_def)
    with detach_raises show ?thesis
      by (simp add: exit_of_def whole_sequence_succeeds_def ss cl driver_steps_succeed_def)
  next
    case (transfer mode dev i detached)
    note ss = steps_succeed_transfer [OF transfer]
    note rs = release_succeeds_found [OF reaches_transfer_found [OF transfer]]
    from transfer have ns: "parse_args (argv env) = Namespace mode" and root: "geteuid env = 0"
      by (simp_all add: reaches_transfer_def reaches_driver_step_def)
    from transfer show ?thesis
    proof (cases rule: transfer_paths)
      case released
      with ns root show ?thesis
        by (auto simp: exit_of_def whole_sequence_succeeds_def ss rs cl split: sum.splits)
    qed (simp_all add: exit_of_def whole_sequence_succeeds_def ss cl ns root)
  qed (simp_all add: exit_of_def whole_sequence_succeeds_def steps_succeed_def cl)
qed

text \<open>
  A run in which everything succeeds, one with a short transfer, one with an unknown mode
  and one with the help option.
\<close>

lemma requests_help_examples:
  "\<not> requests_help [''hq'']" "\<not> requests_help [''fast'']" "\<not> requests_help []"
  "requests_help [''--help'']" "requests_help [''-h'']"
  by (simp_all add: parse_args_help_iff [symmetric] parse_args_modes parse_args_help
        parse_args_empty)
     (simp add: parse_args_def parse_optional_def parse_rest_def check_value_def choices_def)

theorem exit_code_zero_iff_witness:
  "exit_code (exit_of (sample_env 0 [''hq''] (Some (sample_device True (Inr ()) accepts_all (Inr ()))))) = 0 \<and>
   whole_sequence_succeeds (sample_env 0 [''hq''] (Some (sample_device True (Inr ()) accepts_all (Inr ())))) \<and>
   exit_code (exit_of (sample_env 0 [''hq''] (Some (sample_device True (Inr ()) short_write (Inr ()))))) = 1 \<and>
   exit_code (exit_of (sample_env 0 [''fast''] (Some (sample_device True (Inr ()) accepts_all (Inr ()))))) = 2 \<and>
   exit_code (exit_of (sample_env 0 [''-h''] (Some (sample_device True (Inr ()) accepts_all (Inr ()))))) = 0"
proof -
  let ?ok = "sample_device True (Inr ()) accepts_all (Inr ())"
  let ?short = "sample_device True (Inr ()) short_write (Inr ())"
  have r: "reaches_transfer (sample_env 0 [''hq''] (Some ?ok)) ''hq'' ?ok 3 True"
    by (rule reaches_transfer_sample) (simp_all add: parse_args_modes)
  have r': "reaches_transfer (sample_env 0 [''hq''] (Some ?short)) ''hq'' ?short 3 True"
    by (rule reaches_transfer_sample) (simp_all add: parse_args_modes)
  have ok: "whole_sequence_succeeds (sample_env 0 [''hq''] (Some ?ok))"
    by (simp add: whole_sequence_succeeds_def steps_succeed_transfer [OF r]
          release_succeeds_def accepts_all_def)
  have short: "\<not> whole_sequence_succeeds (sample_env 0 [''hq''] (Some ?short))"
    by (simp add: whole_sequence_succeeds_def steps_succeed_transfer [OF r'] short_write_def)
  have valid: "valid_command_line [''hq'']" "\<not> valid_command_line [''fast'']"
    by (simp_all add: valid_command_line_def choices_def)
  from exit_code_zero_iff [of "sample_env 0 [''hq''] (Some ?ok)"]
    exit_code_zero_iff [of "sample_env 0 [''hq''] (Some ?short)"]
    exit_code_zero_iff [of "sample_env 0 [''fast''] (Some ?ok)"]
    exit_code_zero_iff [of "sample_env 0 [''-h''] (Some ?ok)"]
    ok short valid requests_help_examples
  show ?thesis by auto
qed

text \<open>
  Claim C8 as stated fails: \<open>--help\<close> gives the exit status 0 in a run that sends no
  transfer at all.
\<close>

theorem long_help_exit_code_zero:
  "exit_code (exit_of (sample_env 0 [''--help''] (Some (sample_device True (Inr ()) accepts_all (Inr ()))))) = 0 \<and>
   \<not> whole_sequence_succeeds (sample_env 0 [''--help''] (Some (sample_device True (Inr ()) accepts_all (Inr ())))) \<and>
   trace (sample_env 0 [''--help''] (Some (sample_device True (Inr ()) accepts_all (Inr ())))) = []"
  by (simp add: exit_of_def trace_def main_argparse_exit parse_args_help
        whole_sequence_succeeds_def steps_succeed_def)

end
